theory Spec2Isabelle
  imports Complex_Main "HOL-Library.Sublist"
begin

section \<open>Strings and JSON values\<close>

text \<open>
  Strings are character lists. The case mappings, the white-space test and \<open>trim\<close>
  defined here are the restrictions to ASCII of JavaScript's \<open>toLowerCase\<close>,
  \<open>toUpperCase\<close> and \<open>trim\<close>: they leave every other character alone. JavaScript's
  own functions do more (\<open>trim\<close> and \<open>\s\<close> also match U+00A0, U+FEFF, U+2028 and
  others; \<open>toUpperCase\<close> maps sharp s to \<open>SS\<close>). Wherever a result of the program
  depends on that (the employee lookup, the file name of a firm, the messages of the
  validator) the library functions are parameters, collected in \<open>string_lib\<close>, and the
  ASCII versions only instantiate them in the example environments. The screener looks
  for ASCII patterns and the evaluator hands the trimmed output to a JSON parser that is
  itself a parameter, so the ASCII versions are used there directly.
\<close>

definition toLower_char :: "char \<Rightarrow> char" where
  "toLower_char c =
     (let n = (of_char c :: nat) in if 65 \<le> n \<and> n \<le> 90 then char_of (n + 32) else c)"

definition ascii_upper_char :: "char \<Rightarrow> char" where
  "ascii_upper_char c =
     (let n = (of_char c :: nat) in if 97 \<le> n \<and> n \<le> 122 then char_of (n - 32) else c)"

definition toLowerCase :: "string \<Rightarrow> string" where
  "toLowerCase s = map toLower_char s"

definition ascii_toUpperCase :: "string \<Rightarrow> string" where
  "ascii_toUpperCase s = map ascii_upper_char s"

definition is_space :: "char \<Rightarrow> bool" where
  "is_space c = (let n = (of_char c :: nat) in n = 32 \<or> (9 \<le> n \<and> n \<le> 13))"

definition trim :: "string \<Rightarrow> string" where
  "trim s = rev (dropWhile is_space (rev (dropWhile is_space s)))"

text \<open>
  The string functions of the JavaScript library whose behaviour outside ASCII matters:
  \<open>s.trim()\<close>, \<open>s.toUpperCase()\<close>, \<open>s.toLowerCase()\<close> and
  \<open>s.replace(/\s+/g, "_")\<close>.
\<close>

record string_lib =
  String_trim :: "string \<Rightarrow> string"
  String_toUpperCase :: "string \<Rightarrow> string"
  String_toLowerCase :: "string \<Rightarrow> string"
  String_replace_whitespace :: "string \<Rightarrow> string"

text \<open>\<open>hay.includes(needle)\<close>: the needle occurs as a contiguous run of the haystack.\<close>

fun includes_str :: "string \<Rightarrow> string \<Rightarrow> bool" where
  "includes_str [] needle = (needle = [])"
| "includes_str (c # cs) needle = (prefix needle (c # cs) \<or> includes_str cs needle)"

text \<open>\<open>hay.indexOf(needle)\<close>, with \<open>None\<close> for JavaScript's \<open>-1\<close>.\<close>

fun indexOf :: "string \<Rightarrow> string \<Rightarrow> nat option" where
  "indexOf [] needle = (if needle = [] then Some 0 else None)"
| "indexOf (c # cs) needle =
     (if prefix needle (c # cs) then Some 0 else map_option Suc (indexOf cs needle))"

text \<open>\<open>hay.indexOf(needle, from)\<close> for a start position inside the string.\<close>

definition indexOf_from :: "string \<Rightarrow> string \<Rightarrow> nat \<Rightarrow> nat option" where
  "indexOf_from hay needle from = map_option (\<lambda>i. i + from) (indexOf (drop from hay) needle)"

text \<open>
  A value as \<open>JSON.parse\<close> returns it. An object is the list of its members; a number is
  the value of the double, which is a rational.
\<close>

datatype json =
    JNull
  | JBool bool
  | JNum rat
  | JStr string
  | JArr "json list"
  | JObj "(string \<times> json) list"

text \<open>JavaScript truthiness of a parsed value; \<open>None\<close> is \<open>undefined\<close>.\<close>

fun truthy :: "json option \<Rightarrow> bool" where
  "truthy None = False"
| "truthy (Some JNull) = False"
| "truthy (Some (JBool b)) = b"
| "truthy (Some (JNum n)) = (n \<noteq> 0)"
| "truthy (Some (JStr s)) = (s \<noteq> [])"
| "truthy (Some (JArr xs)) = True"
| "truthy (Some (JObj ms)) = True"

text \<open>\<open>a || b\<close> on optional strings: \<open>a\<close> when it is a non-empty string, else \<open>b\<close>.\<close>

definition js_or :: "string option \<Rightarrow> string option \<Rightarrow> string option" where
  "js_or a b = (case a of None \<Rightarrow> b | Some s \<Rightarrow> if s = [] then b else a)"

section \<open>The static screener and the validator (daytona-validator.ts)\<close>

definition DANGEROUS_SNIPPETS :: "string list" where
  "DANGEROUS_SNIPPETS =
     [''import os'', ''import subprocess'', ''from subprocess'', ''open('', ''exec('',
      ''eval('', ''__import__'', ''os.system'', ''sys.stdout'', ''sys.stderr'']"

record SecurityCheck =
  safe :: bool
  sc_reason :: "string option"

text \<open>The loop of \<open>checkSecurity\<close> over the snippets, first match returns.\<close>

fun checkSecurity_scan :: "string \<Rightarrow> string list \<Rightarrow> SecurityCheck" where
  "checkSecurity_scan lowerCode [] = \<lparr>safe = True, sc_reason = None\<rparr>"
| "checkSecurity_scan lowerCode (snippet # rest) =
     (let needle = toLowerCase snippet in
      if includes_str lowerCode needle
      then \<lparr>safe = False, sc_reason = Some (''Code contains insecure pattern: '' @ snippet)\<rparr>
      else checkSecurity_scan lowerCode rest)"

definition checkSecurity :: "string \<Rightarrow> SecurityCheck" where
  "checkSecurity code = checkSecurity_scan (toLowerCase code) DANGEROUS_SNIPPETS"

subsection \<open>Rules and validation results (types/index.ts)\<close>

record ValidationAttempt =
  attempt_number :: nat
  passed :: bool
  error :: "string option"
  test_output :: "string option"
  feedback_to_llm :: "string option"
  timestamp :: string

record Rule =
  rule_id :: string
  rule_name :: string
  description :: string
  policy_reference :: string
  python_code :: string
  applies_to_roles :: "string list"
  active :: bool
  generation_attempt :: nat
  validation_history :: "ValidationAttempt list"

text \<open>\<open>ValidationResult\<close>; its fields carry the prefix \<open>vr_\<close>.\<close>

record ValidationResult =
  vr_passed :: bool
  vr_syntax_error :: "string option"
  vr_runtime_error :: "string option"
  vr_test_failure :: "string option"
  vr_security_issue :: "string option"
  vr_error :: "string option"
  vr_test_output :: "string option"

text \<open>The object literal \<open>{ passed: false }\<close>, to which a branch adds its one field.\<close>

definition not_passed :: ValidationResult where
  "not_passed =
     \<lparr>vr_passed = False, vr_syntax_error = None, vr_runtime_error = None,
      vr_test_failure = None, vr_security_issue = None, vr_error = None,
      vr_test_output = None\<rparr>"

subsection \<open>The sandbox capability\<close>

text \<open>
  The two programs sent to the sandbox are fixed templates around an embedded base64
  payload; a program is represented by its template and the payload it embeds.
\<close>

datatype script = SyntaxScript string | TestScript json

record ExecuteResponse =
  exitCode :: int
  artifacts_stdout :: "string option"
  result :: "string option"

text \<open>
  What the validator takes from outside: the Daytona client (each call may throw, \<open>Inl\<close>
  the message, and changes the world \<open>'w\<close>), the clock and the JSON library.
\<close>

record ('w, 'sb) sandbox_env =
  client_create :: "'w \<Rightarrow> (string + 'sb) \<times> 'w"
  process_codeRun :: "'sb \<Rightarrow> script \<Rightarrow> nat \<Rightarrow> 'w \<Rightarrow> (string + ExecuteResponse) \<times> 'w"
  client_delete :: "'sb \<Rightarrow> 'w \<Rightarrow> (string + unit) \<times> 'w"
  preserveSandbox :: bool
  today_iso :: "'w \<Rightarrow> string \<times> 'w"
  JSON_parse :: "string \<Rightarrow> string + json"
  JSON_stringify :: "json \<Rightarrow> string"
  null_member_message :: string
  sandbox_strings :: string_lib

text \<open>\<open>execResult.artifacts?.stdout ?? execResult.result ?? ""\<close>\<close>

definition stdout_of :: "ExecuteResponse \<Rightarrow> string" where
  "stdout_of r =
     (case artifacts_stdout r of Some s \<Rightarrow> s
      | None \<Rightarrow> (case result r of Some s \<Rightarrow> s | None \<Rightarrow> []))"

text \<open>
  \<open>v.key\<close> on a parsed value other than \<open>null\<close>, for the keys \<open>allowed\<close> and \<open>reason\<close>:
  a member of an object, \<open>undefined\<close> (\<open>None\<close>) on anything else.
\<close>

fun member_of :: "json \<Rightarrow> string \<Rightarrow> json option" where
  "member_of (JObj ms) key = map_of ms key"
| "member_of v key = None"

fun is_boolean :: "json option \<Rightarrow> bool" where
  "is_boolean (Some (JBool b)) = True"
| "is_boolean v = False"

definition extractBetween ::
  "string_lib \<Rightarrow> string \<Rightarrow> string \<Rightarrow> string \<Rightarrow> string option" where
  "extractBetween lib content start end_marker =
     (case indexOf content start of
        None \<Rightarrow> None
      | Some startIndex \<Rightarrow>
          (case indexOf_from content end_marker (startIndex + length start) of
             None \<Rightarrow> None
           | Some endIndex \<Rightarrow>
               Some (String_trim lib
                       (take (endIndex - (startIndex + length start))
                             (drop (startIndex + length start) content)))))"

record SyntaxResult =
  syn_passed :: bool
  syn_error :: "string option"

definition checkSyntax ::
  "('w, 'sb) sandbox_env \<Rightarrow> 'sb \<Rightarrow> string \<Rightarrow> 'w \<Rightarrow> (string + SyntaxResult) \<times> 'w" where
  "checkSyntax env sandbox pythonCode w =
     (case process_codeRun env sandbox (SyntaxScript pythonCode) 60 w of
        (Inl e, w') \<Rightarrow> (Inl e, w')
      | (Inr r, w') \<Rightarrow>
          (let stdout = stdout_of r; isValid = includes_str stdout ''SYNTAX_VALID'' in
           (Inr \<lparr>syn_passed = isValid,
                 syn_error = (if isValid then None
                              else if String_trim (sandbox_strings env) stdout \<noteq> []
                              then Some (String_trim (sandbox_strings env) stdout)
                              else Some ''Unknown syntax error'')\<rparr>, w')))"

text \<open>
  The canonical fixture of \<open>runTests\<close>. The program embeds it as JSON in base64 and
  reads it back with \<open>json.loads\<close>, which gives the same value.
\<close>

definition fixture_employee :: "Rule \<Rightarrow> json" where
  "fixture_employee rule =
     JObj [(''id'', JStr ''validator-emp''),
           (''role'', JStr ''Equity Research Analyst - Technology''),
           (''division'', JStr ''Research''),
           (''department'', JStr ''Research''),
           (''sector'', JStr ''Technology''),
           (''tier'', JNum 2),
           (''firm'', JStr (policy_reference rule)),
           (''restricted_tickers'', JArr [JStr ''AAPL'', JStr ''TSLA'', JStr ''MSFT'', JStr ''GOOGL'']),
           (''can_trade'', JArr [JStr ''SPY'', JStr ''VTI'', JStr ''BND'']),
           (''coverage_stocks'',
              JArr [JObj [(''ticker'', JStr ''AAPL''), (''company'', JStr ''Apple Inc''),
                          (''rating'', JStr ''Buy''), (''price_target'', JNum 250)],
                    JObj [(''ticker'', JStr ''MSFT''), (''company'', JStr ''Microsoft''),
                          (''rating'', JStr ''Buy''), (''price_target'', JNum 475)],
                    JObj [(''ticker'', JStr ''GOOGL''), (''company'', JStr ''Alphabet''),
                          (''rating'', JStr ''Hold''), (''price_target'', JNum 185)],
                    JObj [(''ticker'', JStr ''TSLA''), (''company'', JStr ''Tesla''),
                          (''rating'', JStr ''Watch''), (''price_target'', JNum 200)]]),
           (''active_deals'',
              JArr [JObj [(''ticker'', JStr ''CVAI''), (''deal_type'', JStr ''IPO''),
                          (''reason'', JStr ''Lead banker on IPO deal'')]]),
           (''can_trade_reason'', JStr ''Sample validator data''),
           (''covered_tickers'', JArr [JStr ''AAPL'', JStr ''MSFT'', JStr ''GOOGL'', JStr ''TSLA''])]"

definition fixture_security :: json where
  "fixture_security =
     JObj [(''ticker'', JStr ''TSLA''),
           (''earnings_date'', JStr ''2025-11-20''),
           (''next_earnings_date'', JStr ''2025-11-20''),
           (''last_earnings_date'', JStr ''2025-08-15''),
           (''market_cap'', JNum 1000000000),
           (''is_covered'', JBool True),
           (''requires_preapproval'', JBool False)]"

definition validator_payload :: "Rule \<Rightarrow> string \<Rightarrow> json" where
  "validator_payload rule trade_date =
     JObj [(''code'', JStr (python_code rule)),
           (''employee'', fixture_employee rule),
           (''security'', fixture_security),
           (''trade_date'', JStr trade_date)]"

definition runTests ::
  "('w, 'sb) sandbox_env \<Rightarrow> 'sb \<Rightarrow> Rule \<Rightarrow> 'w \<Rightarrow> (string + ValidationResult) \<times> 'w" where
  "runTests env sandbox rule w =
     (case today_iso env w of
        (trade_date, w0) \<Rightarrow>
     (case process_codeRun env sandbox (TestScript (validator_payload rule trade_date)) 120 w0 of
        (Inl e, w') \<Rightarrow> (Inl e, w')
      | (Inr execResult, w') \<Rightarrow>
          (let stdout = stdout_of execResult in
           if exitCode execResult \<noteq> 0
           then (Inr (not_passed\<lparr>vr_runtime_error :=
                        Some (String_trim (sandbox_strings env)
                                (if stdout \<noteq> [] then stdout
                                 else ''Runtime error while executing rule''))\<rparr>), w')
           else
             (case extractBetween (sandbox_strings env) stdout
                     ''__RULE_OUTPUT__'' ''__RULE_OUTPUT_END__'' of
                None \<Rightarrow>
                  (Inr (not_passed\<lparr>vr_test_failure :=
                          Some ''Rule execution did not return structured output''\<rparr>), w')
              | Some output \<Rightarrow>
                  if output = []
                  then (Inr (not_passed\<lparr>vr_test_failure :=
                               Some ''Rule execution did not return structured output''\<rparr>), w')
                  else
                    (case JSON_parse env output of
                       Inl msg \<Rightarrow>
                         (Inr (not_passed\<lparr>vr_runtime_error :=
                                 Some (''Failed to parse rule output: '' @ msg)\<rparr>), w')
                     | Inr parsed \<Rightarrow>
                         if parsed = JNull
                         then (Inr (not_passed\<lparr>vr_runtime_error :=
                                      Some (''Failed to parse rule output: '' @
                                            null_member_message env)\<rparr>), w')
                         else if \<not> is_boolean (member_of parsed ''allowed'')
                         then (Inr (not_passed\<lparr>vr_test_failure :=
                                      Some (''Rule output missing boolean 'allowed'' @
                                            [CHR 0x27])\<rparr>), w')
                         else (Inr (not_passed\<lparr>vr_passed := True,
                                      vr_test_output := Some (JSON_stringify env parsed)\<rparr>),
                               w'))))))"

text \<open>The \<open>finally\<close> block: delete the sandbox unless it is preserved; a failure is logged.\<close>

definition cleanup :: "('w, 'sb) sandbox_env \<Rightarrow> 'sb \<Rightarrow> 'w \<Rightarrow> 'w" where
  "cleanup env sandbox w = (if preserveSandbox env then w else snd (client_delete env sandbox w))"

text \<open>The body of the \<open>try\<close> once the sandbox exists, with its \<open>catch\<close>.\<close>

definition validate_in_sandbox ::
  "('w, 'sb) sandbox_env \<Rightarrow> 'sb \<Rightarrow> Rule \<Rightarrow> 'w \<Rightarrow> ValidationResult \<times> 'w" where
  "validate_in_sandbox env sandbox rule w =
     (case checkSyntax env sandbox (python_code rule) w of
        (Inl e, w1) \<Rightarrow> (not_passed\<lparr>vr_error := Some e\<rparr>, w1)
      | (Inr syntaxResult, w1) \<Rightarrow>
          if \<not> syn_passed syntaxResult
          then (not_passed\<lparr>vr_syntax_error := syn_error syntaxResult\<rparr>, w1)
          else
            (case runTests env sandbox rule w1 of
               (Inl e, w2) \<Rightarrow> (not_passed\<lparr>vr_error := Some e\<rparr>, w2)
             | (Inr runtimeResult, w2) \<Rightarrow>
                 if \<not> vr_passed runtimeResult then (runtimeResult, w2)
                 else (not_passed\<lparr>vr_passed := True,
                         vr_test_output := vr_test_output runtimeResult\<rparr>, w2)))"

definition validateRule ::
  "('w, 'sb) sandbox_env \<Rightarrow> Rule \<Rightarrow> 'w \<Rightarrow> ValidationResult \<times> 'w" where
  "validateRule env rule w =
     (let security = checkSecurity (python_code rule) in
      if \<not> safe security
      then (not_passed\<lparr>vr_security_issue := sc_reason security\<rparr>, w)
      else
        (case client_create env w of
           (Inl e, w1) \<Rightarrow> (not_passed\<lparr>vr_error := Some e\<rparr>, w1)
         | (Inr sandbox, w1) \<Rightarrow>
             (case validate_in_sandbox env sandbox rule w1 of
                (res, w2) \<Rightarrow> (res, cleanup env sandbox w2))))"

section \<open>Demo data lookup (demo-data.ts)\<close>








section \<open>The rules store (rules-storage.ts)\<close>

record RulesData =
  firm_name :: string
  policy_version :: string
  last_updated :: string
  generated_by_llm :: bool
  total_iterations :: nat
  rules :: "Rule list"

text \<open>What one \<open>new Date()\<close> gives to \<open>saveRules\<close>.\<close>

record js_date =
  toISOString :: string
  getFullYear :: nat
  getMonth :: nat

record fs_error =
  err_code :: string
  err_message :: string

text \<open>
  The file system, the clock, the path library and the JSON library, as the store uses
  them. A call that throws returns \<open>Inl\<close>. \<open>parse_RulesData\<close> is
  \<open>JSON.parse(contents) as RulesData\<close>: the cast is not checked by the code and is not
  questioned here.
\<close>

record 'w storage_env =
  mkdirSync :: "string \<Rightarrow> 'w \<Rightarrow> (fs_error + unit) \<times> 'w"
  Bun_write :: "string \<Rightarrow> string \<Rightarrow> 'w \<Rightarrow> (string + unit) \<times> 'w"
  Bun_file_exists :: "string \<Rightarrow> 'w \<Rightarrow> (string + bool) \<times> 'w"
  Bun_file_text :: "string \<Rightarrow> 'w \<Rightarrow> (string + string) \<times> 'w"
  new_Date :: "'w \<Rightarrow> js_date \<times> 'w"
  path_join :: "string \<Rightarrow> string \<Rightarrow> string"
  path_dirname :: "string \<Rightarrow> string"
  stringify_RulesData :: "RulesData \<Rightarrow> string"
  parse_RulesData :: "string \<Rightarrow> string + RulesData"
  storage_strings :: string_lib

text \<open>The object: its cache (a \<open>Map\<close> keyed by the firm name as given) and its directory.\<close>

record RulesStorage =
  cache :: "string \<rightharpoonup> RulesData"
  rulesDir :: string

definition ensureDir :: "'w storage_env \<Rightarrow> string \<Rightarrow> 'w \<Rightarrow> (string + unit) \<times> 'w" where
  "ensureDir env path w =
     (case mkdirSync env path w of
        (Inr u, w') \<Rightarrow> (Inr (), w')
      | (Inl e, w') \<Rightarrow>
          if err_code e \<noteq> ''EEXIST'' then (Inl (err_message e), w') else (Inr (), w'))"

definition new_RulesStorage ::
  "'w storage_env \<Rightarrow> string \<Rightarrow> 'w \<Rightarrow> (string + RulesStorage) \<times> 'w" where
  "new_RulesStorage env dir w =
     (case ensureDir env dir w of
        (Inl e, w') \<Rightarrow> (Inl e, w')
      | (Inr u, w') \<Rightarrow> (Inr \<lparr>cache = Map.empty, rulesDir = dir\<rparr>, w'))"

text \<open>\<open>firmName.trim().toLowerCase().replace(/\s+/g, "_")\<close>\<close>

definition normalizeFirmName :: "string_lib \<Rightarrow> string \<Rightarrow> string" where
  "normalizeFirmName lib firmName =
     String_replace_whitespace lib (String_toLowerCase lib (String_trim lib firmName))"

definition getFilePath :: "'w storage_env \<Rightarrow> RulesStorage \<Rightarrow> string \<Rightarrow> string" where
  "getFilePath env st firmName =
     path_join env (rulesDir st)
       (normalizeFirmName (storage_strings env) firmName @ ''_rules.json'')"

text \<open>\<open>String(n)\<close> for a natural number, and \<open>padStart(2, "0")\<close>.\<close>

function String_nat :: "nat \<Rightarrow> string" where
  "String_nat n =
     (if n < 10 then [char_of (48 + n)]
      else String_nat (n div 10) @ [char_of (48 + n mod 10)])"
  by pat_completeness auto
termination
  by (relation "measure id") auto

definition padStart2 :: "string \<Rightarrow> string" where
  "padStart2 s = replicate (2 - length s) (CHR ''0'') @ s"

definition saveRules ::
  "'w storage_env \<Rightarrow> RulesStorage \<Rightarrow> string \<Rightarrow> Rule list \<Rightarrow> nat \<Rightarrow> 'w \<Rightarrow>
     (string + RulesData) \<times> RulesStorage \<times> 'w" where
  "saveRules env st firmName rs totalIterations w =
     (case new_Date env w of (d1, w1) \<Rightarrow>
      case new_Date env w1 of (d2, w2) \<Rightarrow>
      case new_Date env w2 of (d3, w3) \<Rightarrow>
        (let now = toISOString d1;
             policyVersion =
               String_nat (getFullYear d2) @ ''-'' @ padStart2 (String_nat (getMonth d3 + 1));
             data = \<lparr>firm_name = firmName, policy_version = policyVersion,
                     last_updated = now, generated_by_llm = True,
                     total_iterations = totalIterations, rules = rs\<rparr>;
             filePath = getFilePath env st firmName
         in
           (case ensureDir env (path_dirname env filePath) w3 of
              (Inl e, w4) \<Rightarrow> (Inl e, st, w4)
            | (Inr u, w4) \<Rightarrow>
                (case Bun_write env filePath (stringify_RulesData env data) w4 of
                   (Inl e, w5) \<Rightarrow> (Inl e, st, w5)
                 | (Inr v, w5) \<Rightarrow>
                     (Inr data, st\<lparr>cache := (cache st)(firmName \<mapsto> data)\<rparr>, w5)))))"

definition loadRules ::
  "'w storage_env \<Rightarrow> RulesStorage \<Rightarrow> string \<Rightarrow> 'w \<Rightarrow>
     (string + RulesData option) \<times> RulesStorage \<times> 'w" where
  "loadRules env st firmName w =
     (case cache st firmName of
        Some d \<Rightarrow> (Inr (Some d), st, w)
      | None \<Rightarrow>
          (case Bun_file_exists env (getFilePath env st firmName) w of
             (Inl e, w1) \<Rightarrow> (Inl e, st, w1)
           | (Inr False, w1) \<Rightarrow> (Inr None, st, w1)
           | (Inr True, w1) \<Rightarrow>
               (case Bun_file_text env (getFilePath env st firmName) w1 of
                  (Inl e, w2) \<Rightarrow> (Inl e, st, w2)
                | (Inr contents, w2) \<Rightarrow>
                    (case parse_RulesData env contents of
                       Inl e \<Rightarrow> (Inl e, st, w2)
                     | Inr parsed \<Rightarrow>
                         (Inr (Some parsed),
                          st\<lparr>cache := (cache st)(firmName \<mapsto> parsed)\<rparr>, w2)))))"

section \<open>The compliance evaluator (rules-executor.ts)\<close>

text \<open>
  Employee and security are open records handed to the rule as they are; the evaluator
  itself reads only \<open>employee.role\<close>.
\<close>

record Employee =
  role :: string
  employee_members :: "(string \<times> json) list"

record Security =
  ticker :: string
  security_members :: "(string \<times> json) list"

text \<open>The object written to the runner's standard input.\<close>

record RunnerPayload =
  payload_code :: string
  payload_employee :: Employee
  payload_security :: Security
  payload_date :: string

text \<open>
  \<open>runPythonCode\<close> with the program \<open>PYTHON_RUNNER\<close> and the 10 s timeout: the standard
  output of the process, or the message of the error it rejects with. \<open>JSON_parse_stdout\<close>
  is \<open>JSON.parse\<close> (\<open>None\<close> when it throws) applied to what JavaScript's \<open>trim\<close>
  leaves of a text already stripped of ASCII white space; \<open>null_allowed_message\<close> is
  the message of the \<open>TypeError\<close> raised by \<open>result.allowed\<close> when the output
  parses to \<open>null\<close>.
\<close>

record 'w executor_env =
  runPythonCode :: "RunnerPayload \<Rightarrow> 'w \<Rightarrow> (string + string) \<times> 'w"
  JSON_parse_stdout :: "string \<Rightarrow> json option"
  null_allowed_message :: string

record RuleExecutionResult =
  exec_allowed :: bool
  exec_reason :: "json option"

definition executeRule ::
  "'w executor_env \<Rightarrow> Rule \<Rightarrow> Employee \<Rightarrow> Security \<Rightarrow> string \<Rightarrow> 'w \<Rightarrow>
     (string + RuleExecutionResult) \<times> 'w" where
  "executeRule env rule employee security tradeDate w =
     (case runPythonCode env
             \<lparr>payload_code = python_code rule, payload_employee = employee,
              payload_security = security, payload_date = tradeDate\<rparr> w of
        (Inl e, w') \<Rightarrow> (Inl e, w')
      | (Inr stdout, w') \<Rightarrow>
          (case JSON_parse_stdout env (trim stdout) of
             None \<Rightarrow> (Inl ''Python bridge returned invalid JSON'', w')
           | Some parsed \<Rightarrow>
               if parsed = JNull then (Inl (null_allowed_message env), w')
               else
                 (case member_of parsed ''allowed'' of
                    Some (JBool b) \<Rightarrow>
                      (Inr \<lparr>exec_allowed = b, exec_reason = member_of parsed ''reason''\<rparr>, w')
                  | _ \<Rightarrow>
                      (Inl (''Rule result missing boolean 'allowed'' @ [CHR 0x27]), w'))))"

text \<open>
  The verdict. The code pushes whatever truthy \<open>reason\<close> the rule returned, so a reason
  is a parsed value; the synthetic reason of a failed execution is a string.
\<close>

record ComplianceResult =
  allowed :: bool
  reasons :: "json list"
  policy_refs :: "string list"
  rules_checked :: "string list"

definition empty_response :: ComplianceResult where
  "empty_response = \<lparr>allowed = True, reasons = [], policy_refs = [], rules_checked = []\<rparr>"

text \<open>\<open>!rule.active\<close>, or a non-empty role list without the employee's role: \<open>continue\<close>.\<close>

definition skipped :: "Employee \<Rightarrow> Rule \<Rightarrow> bool" where
  "skipped employee rule =
     (\<not> active rule \<or>
      (length (applies_to_roles rule) > 0 \<and> role employee \<notin> set (applies_to_roles rule)))"

text \<open>The body of the \<open>try\<close> after a rule returned, and the \<open>catch\<close>.\<close>

definition on_result :: "Rule \<Rightarrow> RuleExecutionResult \<Rightarrow> ComplianceResult \<Rightarrow> ComplianceResult" where
  "on_result rule execution response =
     (if \<not> exec_allowed execution
      then
        (let r1 = response\<lparr>allowed := False\<rparr>;
             r2 = (case exec_reason execution of
                     None \<Rightarrow> r1
                   | Some v \<Rightarrow> if truthy (Some v) then r1\<lparr>reasons := reasons r1 @ [v]\<rparr> else r1)
         in r2\<lparr>policy_refs := policy_refs r2 @ [policy_reference rule]\<rparr>)
      else response)"

definition on_error :: "Rule \<Rightarrow> string \<Rightarrow> ComplianceResult \<Rightarrow> ComplianceResult" where
  "on_error rule msg response =
     response\<lparr>allowed := False,
              reasons := reasons response @
                [JStr (''Rule '' @ rule_name rule @ '' execution failed: '' @ msg)],
              policy_refs := policy_refs response @ [policy_reference rule]\<rparr>"

fun checkCompliance_loop ::
  "'w executor_env \<Rightarrow> Employee \<Rightarrow> Security \<Rightarrow> string \<Rightarrow> Rule list \<Rightarrow>
     ComplianceResult \<Rightarrow> 'w \<Rightarrow> ComplianceResult \<times> 'w" where
  "checkCompliance_loop env employee security tradeDate [] response w = (response, w)"
| "checkCompliance_loop env employee security tradeDate (rule # rest) response w =
     (if skipped employee rule
      then checkCompliance_loop env employee security tradeDate rest response w
      else
        (let checked = response\<lparr>rules_checked := rules_checked response @ [rule_name rule]\<rparr>
         in
           (case executeRule env rule employee security tradeDate w of
              (Inr execution, w') \<Rightarrow>
                checkCompliance_loop env employee security tradeDate rest
                  (on_result rule execution checked) w'
            | (Inl msg, w') \<Rightarrow>
                checkCompliance_loop env employee security tradeDate rest
                  (on_error rule msg checked) w')))"

definition checkCompliance ::
  "'w storage_env \<Rightarrow> 'w executor_env \<Rightarrow> RulesStorage \<Rightarrow> string \<Rightarrow> Employee \<Rightarrow> Security \<Rightarrow>
     string \<Rightarrow> 'w \<Rightarrow> (string + ComplianceResult) \<times> RulesStorage \<times> 'w" where
  "checkCompliance senv env st firmName employee security tradeDate w =
     (case loadRules senv st firmName w of
        (Inl e, st', w') \<Rightarrow> (Inl e, st', w')
      | (Inr None, st', w') \<Rightarrow> (Inr empty_response, st', w')
      | (Inr (Some stored), st', w') \<Rightarrow>
          (case checkCompliance_loop env employee security tradeDate (rules stored)
                  empty_response w' of
             (response, w'') \<Rightarrow> (Inr response, st', w'')))"

text \<open>
  The executions of one evaluation, in order: each rule that is not skipped, with what
  \<open>executeRule\<close> returned for it in the world the loop had reached.
\<close>

fun executions ::
  "'w executor_env \<Rightarrow> Employee \<Rightarrow> Security \<Rightarrow> string \<Rightarrow> Rule list \<Rightarrow> 'w \<Rightarrow>
     (Rule \<times> (string + RuleExecutionResult)) list" where
  "executions env employee security tradeDate [] w = []"
| "executions env employee security tradeDate (rule # rest) w =
     (if skipped employee rule then executions env employee security tradeDate rest w
      else
        (case executeRule env rule employee security tradeDate w of
           (outcome, w') \<Rightarrow>
             (rule, outcome) # executions env employee security tradeDate rest w'))"

text \<open>An execution raised; a rule returned a denial.\<close>

definition raised :: "Rule \<times> (string + RuleExecutionResult) \<Rightarrow> bool" where
  "raised x = (case snd x of Inl e \<Rightarrow> True | Inr r \<Rightarrow> False)"

definition denied :: "Rule \<times> (string + RuleExecutionResult) \<Rightarrow> bool" where
  "denied x = (case snd x of Inl e \<Rightarrow> False | Inr r \<Rightarrow> \<not> exec_allowed r)"

text \<open>
  What one execution contributes to the verdict: the rule becomes checked, and the
  result or the error is handled as in the loop body.
\<close>

definition apply_outcome ::
  "Rule \<times> (string + RuleExecutionResult) \<Rightarrow> ComplianceResult \<Rightarrow> ComplianceResult" where
  "apply_outcome x response =
     (let checked = response\<lparr>rules_checked := rules_checked response @ [rule_name (fst x)]\<rparr>
      in case snd x of
           Inr execution \<Rightarrow> on_result (fst x) execution checked
         | Inl msg \<Rightarrow> on_error (fst x) msg checked)"

text \<open>The reasons one execution adds: the synthetic one, a truthy reason of a denial, or none.\<close>

definition reason_entries :: "Rule \<times> (string + RuleExecutionResult) \<Rightarrow> json list" where
  "reason_entries x =
     (case snd x of
        Inl msg \<Rightarrow> [JStr (''Rule '' @ rule_name (fst x) @ '' execution failed: '' @ msg)]
      | Inr execution \<Rightarrow>
          (if exec_allowed execution then []
           else (case exec_reason execution of
                   None \<Rightarrow> []
                 | Some v \<Rightarrow> if truthy (Some v) then [v] else [])))"

text \<open>An execution that adds a reason: a raise, or a denial with a truthy reason.\<close>

definition gives_reason :: "Rule \<times> (string + RuleExecutionResult) \<Rightarrow> bool" where
  "gives_reason x =
     (case snd x of
        Inl msg \<Rightarrow> True
      | Inr execution \<Rightarrow> \<not> exec_allowed execution \<and> truthy (exec_reason execution))"

section \<open>The refinement loop and the ingestion pipeline (iterative-pipeline.ts)\<close>

record PreviousAttemptContext =
  prev_code :: string
  prev_error :: string
  prev_test_results :: string

record GenerationContext =
  ctx_policy_text :: string
  ctx_firm_name :: string
  previous_attempt :: "PreviousAttemptContext option"

record ValidationLoopResult =
  validated :: bool
  result_rule :: Rule
  iterations :: nat

text \<open>
  The collaborators handed to the constructor, and the clock. The generator may throw
  (\<open>Inl\<close>); the validator returns a result for every rule, as \<open>validateRule\<close> does.
  \<open>maxIterationsPerRule\<close> is the integer the pipeline was built with.
\<close>

record 'w pipeline_env =
  generateRules :: "GenerationContext \<Rightarrow> 'w \<Rightarrow> (string + Rule list) \<times> 'w"
  regenerateRule :: "GenerationContext \<Rightarrow> 'w \<Rightarrow> (string + Rule list) \<times> 'w"
  validator_validateRule :: "Rule \<Rightarrow> 'w \<Rightarrow> ValidationResult \<times> 'w"
  Date_now_iso :: "'w \<Rightarrow> string \<times> 'w"
  maxIterationsPerRule :: int

text \<open>\<open>options?.maxIterationsPerRule ?? 5\<close>\<close>

definition maxIterations_option :: "int option \<Rightarrow> int" where
  "maxIterations_option opt = (case opt of None \<Rightarrow> 5 | Some m \<Rightarrow> m)"

fun join_with :: "string \<Rightarrow> string list \<Rightarrow> string" where
  "join_with sep [] = []"
| "join_with sep [x] = x"
| "join_with sep (x # y # ys) = x @ sep @ join_with sep (y # ys)"

text \<open>One \<open>if (validation.f) feedback.push(`label${validation.f}`)\<close>.\<close>

definition hint :: "string \<Rightarrow> string option \<Rightarrow> string list" where
  "hint label v = (case v of None \<Rightarrow> [] | Some s \<Rightarrow> if s = [] then [] else [label @ s])"

definition createFeedbackForLLM :: "ValidationResult \<Rightarrow> string" where
  "createFeedbackForLLM validation =
     (let feedback =
            hint ''Fix syntax issues: '' (vr_syntax_error validation) @
            hint ''Runtime failure: '' (vr_runtime_error validation) @
            hint ''Logical/test failure: '' (vr_test_failure validation) @
            hint ''Security violation: '' (vr_security_issue validation);
          feedback' =
            (if length feedback = 0
             then feedback @ hint ''General validation error: '' (vr_error validation)
             else feedback);
          joined = join_with '' '' feedback'
      in if joined = []
         then ''Validation failed for unspecified reasons. Re-check rule robustness.''
         else joined)"

text \<open>\<open>error || syntax_error || runtime_error || test_failure || security_issue\<close>\<close>

definition consolidated_error :: "ValidationResult \<Rightarrow> string option" where
  "consolidated_error v =
     js_or (js_or (js_or (js_or (vr_error v) (vr_syntax_error v)) (vr_runtime_error v))
              (vr_test_failure v))
       (vr_security_issue v)"

definition regeneration_context ::
  "string \<Rightarrow> string \<Rightarrow> Rule \<Rightarrow> ValidationResult \<Rightarrow> GenerationContext" where
  "regeneration_context policyText firmName currentRule validationResult =
     \<lparr>ctx_policy_text = policyText,
      ctx_firm_name = firmName,
      previous_attempt = Some
        \<lparr>prev_code = python_code currentRule,
         prev_error = (case js_or (consolidated_error validationResult)
                               (Some ''Unknown validation error'') of
                         Some s \<Rightarrow> s | None \<Rightarrow> ''Unknown validation error''),
         prev_test_results = (case vr_test_output validationResult of
                                Some s \<Rightarrow> s | None \<Rightarrow> ''No test output'')\<rparr>\<rparr>"

text \<open>
  One pass through the body of the \<open>while\<close> loop, \<open>attempt\<close> being the counter after
  its increment: the pass returns from the function or leaves the loop (\<open>Return\<close>), or
  goes round again with the regenerated rule (\<open>Continue\<close>).
\<close>

datatype pass = Return "string + ValidationLoopResult" | Continue Rule

definition refine_pass ::
  "'w pipeline_env \<Rightarrow> Rule \<Rightarrow> string \<Rightarrow> string \<Rightarrow> Rule \<Rightarrow> nat \<Rightarrow> 'w \<Rightarrow> pass \<times> 'w" where
  "refine_pass env initialRule policyText firmName currentRule attempt w =
     (let current = currentRule\<lparr>generation_attempt := attempt\<rparr> in
      case validator_validateRule env current w of (validationResult, w1) \<Rightarrow>
      case Date_now_iso env w1 of (ts, w2) \<Rightarrow>
        (let historyEntry =
               \<lparr>attempt_number = attempt,
                passed = vr_passed validationResult,
                error = consolidated_error validationResult,
                test_output = vr_test_output validationResult,
                feedback_to_llm = (if vr_passed validationResult then None
                                   else Some (createFeedbackForLLM validationResult)),
                timestamp = ts\<rparr>;
             recorded = current\<lparr>validation_history :=
                                   validation_history current @ [historyEntry]\<rparr>
         in
           if vr_passed validationResult
           then (Return (Inr \<lparr>validated = True, result_rule = recorded,
                               iterations = attempt\<rparr>), w2)
           else if int attempt \<ge> maxIterationsPerRule env
           then (Return (Inr \<lparr>validated = False, result_rule = recorded,
                               iterations = attempt\<rparr>), w2)
           else
             (case regenerateRule env
                     (regeneration_context policyText firmName recorded validationResult) w2 of
                (Inl e, w3) \<Rightarrow> (Return (Inl e), w3)
              | (Inr [], w3) \<Rightarrow>
                  (Return (Inr \<lparr>validated = False, result_rule = recorded,
                                 iterations = attempt\<rparr>), w3)
              | (Inr (nextRule # others), w3) \<Rightarrow>
                  (Continue (nextRule\<lparr>rule_id := rule_id initialRule,
                                        validation_history := validation_history recorded,
                                        generation_attempt := attempt\<rparr>), w3))))"

function refine_loop ::
  "'w pipeline_env \<Rightarrow> Rule \<Rightarrow> string \<Rightarrow> string \<Rightarrow> Rule \<Rightarrow> nat \<Rightarrow> 'w \<Rightarrow>
     (string + ValidationLoopResult) \<times> 'w" where
  "refine_loop env initialRule policyText firmName currentRule attempt w =
     (if int attempt < maxIterationsPerRule env
      then
        (case refine_pass env initialRule policyText firmName currentRule (attempt + 1) w of
           (Return r, w') \<Rightarrow> (r, w')
         | (Continue nextRule, w') \<Rightarrow>
             refine_loop env initialRule policyText firmName nextRule (attempt + 1) w')
      else (Inr \<lparr>validated = False, result_rule = currentRule, iterations = attempt\<rparr>, w))"
  by pat_completeness auto
termination
  by (relation "measure (\<lambda>(env, initialRule, policyText, firmName, currentRule, attempt, w).
        nat (maxIterationsPerRule env) - attempt)") auto

definition validateAndRefineRule ::
  "'w pipeline_env \<Rightarrow> Rule \<Rightarrow> string \<Rightarrow> string \<Rightarrow> 'w \<Rightarrow>
     (string + ValidationLoopResult) \<times> 'w" where
  "validateAndRefineRule env initialRule policyText firmName w =
     refine_loop env initialRule policyText firmName
       (initialRule\<lparr>validation_history := []\<rparr>) 0 w"

text \<open>The \<open>for\<close> loop of \<open>processPolicy\<close> over the initial rules.\<close>

fun refine_all ::
  "'w pipeline_env \<Rightarrow> string \<Rightarrow> string \<Rightarrow> Rule list \<Rightarrow> Rule list \<Rightarrow> nat \<Rightarrow> 'w \<Rightarrow>
     (string + Rule list \<times> nat) \<times> 'w" where
  "refine_all env policyText firmName [] validatedRules totalIterations w =
     (Inr (validatedRules, totalIterations), w)"
| "refine_all env policyText firmName (rule # rest) validatedRules totalIterations w =
     (case validateAndRefineRule env rule policyText firmName w of
        (Inl e, w') \<Rightarrow> (Inl e, w')
      | (Inr res, w') \<Rightarrow>
          refine_all env policyText firmName rest
            (if validated res then validatedRules @ [result_rule res] else validatedRules)
            (totalIterations + iterations res) w')"

definition processPolicy ::
  "'w pipeline_env \<Rightarrow> 'w storage_env \<Rightarrow> RulesStorage \<Rightarrow> string \<Rightarrow> string \<Rightarrow> 'w \<Rightarrow>
     (string + RulesData) \<times> RulesStorage \<times> 'w" where
  "processPolicy env senv st policyText firmName w =
     (case generateRules env
             \<lparr>ctx_policy_text = policyText, ctx_firm_name = firmName,
              previous_attempt = None\<rparr> w of
        (Inl e, w1) \<Rightarrow> (Inl e, st, w1)
      | (Inr initialRules, w1) \<Rightarrow>
          (case refine_all env policyText firmName initialRules [] 0 w1 of
             (Inl e, w2) \<Rightarrow> (Inl e, st, w2)
           | (Inr (validatedRules, totalIterations), w2) \<Rightarrow>
               saveRules senv st firmName validatedRules totalIterations w2))"

text \<open>
  The same collaborators over a world that also counts the calls of the validator: the
  validator adds one to the count, nothing else touches it.
\<close>

definition count_validator :: "'w pipeline_env \<Rightarrow> ('w \<times> nat) pipeline_env" where
  "count_validator env =
     \<lparr>generateRules = (\<lambda>c (w, n). case generateRules env c w of (r, w') \<Rightarrow> (r, (w', n))),
      regenerateRule = (\<lambda>c (w, n). case regenerateRule env c w of (r, w') \<Rightarrow> (r, (w', n))),
      validator_validateRule =
        (\<lambda>r (w, n). case validator_validateRule env r w of (v, w') \<Rightarrow> (v, (w', Suc n))),
      Date_now_iso = (\<lambda>(w, n). case Date_now_iso env w of (t, w') \<Rightarrow> (t, (w', n))),
      maxIterationsPerRule = maxIterationsPerRule env\<rparr>"

section \<open>Concrete environments, used to run the definitions\<close>

text \<open>
  The string library on ASCII text: the white-space runs replaced are those of the six
  ASCII white-space characters.
\<close>

function ascii_replace_spaces :: "string \<Rightarrow> string" where
  "ascii_replace_spaces [] = []"
| "ascii_replace_spaces (c # cs) =
     (if is_space c then CHR ''_'' # ascii_replace_spaces (dropWhile is_space cs)
      else c # ascii_replace_spaces cs)"
  by pat_completeness auto
termination
  by (relation "measure length") (auto simp: length_dropWhile_le less_Suc_eq_le)

definition ascii_strings :: string_lib where
  "ascii_strings =
     \<lparr>String_trim = trim,
      String_toUpperCase = ascii_toUpperCase,
      String_toLowerCase = toLowerCase,
      String_replace_whitespace = ascii_replace_spaces\<rparr>"

text \<open>
  A sandbox service whose world is the number of sandboxes created so far; every program
  prints the syntax sentinel and a rule output that allows the trade.
\<close>

definition counting_sandbox_env :: "(nat, nat) sandbox_env" where
  "counting_sandbox_env =
     \<lparr>client_create = (\<lambda>n. (Inr n, Suc n)),
      process_codeRun = (\<lambda>sb sc t n.
         (Inr \<lparr>exitCode = 0,
               artifacts_stdout = Some ''SYNTAX_VALID __RULE_OUTPUT__ {} __RULE_OUTPUT_END__'',
               result = None\<rparr>, n)),
      client_delete = (\<lambda>sb n. (Inr (), n)),
      preserveSandbox = False,
      today_iso = (\<lambda>n. (''2025-11-03'', n)),
      JSON_parse = (\<lambda>s. if s = ''{}'' then Inr (JObj []) else Inl ''Unexpected token''),
      JSON_stringify = (\<lambda>j. ''{}''),
      null_member_message = ''null is not an object'',
      sandbox_strings = ascii_strings\<rparr>"

definition unsafe_rule :: Rule where
  "unsafe_rule =
     \<lparr>rule_id = ''no_os'', rule_name = ''No OS'', description = ''reads the environment'',
      policy_reference = ''Section 1'', python_code = ''Import OS'',
      applies_to_roles = [], active = True, generation_attempt = 1,
      validation_history = []\<rparr>"




text \<open>
  A world for running the store and the evaluator: the files, the file operations
  performed so far, and the number of runner processes started.
\<close>

datatype fs_op = Mkdir string | Write string string | Rename string string

record world =
  files :: "(string \<times> string) list"
  fs_log :: "fs_op list"
  runner_calls :: nat

definition world0 :: world where
  "world0 = \<lparr>files = [], fs_log = [], runner_calls = 0\<rparr>"

text \<open>A store over that world; its JSON codec knows the one document of the example.\<close>

definition demo_storage_env :: "world storage_env" where
  "demo_storage_env =
     \<lparr>mkdirSync = (\<lambda>p w. (Inr (), w\<lparr>fs_log := fs_log w @ [Mkdir p]\<rparr>)),
      Bun_write = (\<lambda>p c w. (Inr (), w\<lparr>files := (p, c) # files w,
                                        fs_log := fs_log w @ [Write p c]\<rparr>)),
      Bun_file_exists = (\<lambda>p w. (Inr (map_of (files w) p \<noteq> None), w)),
      Bun_file_text = (\<lambda>p w. (case map_of (files w) p of
                                 None \<Rightarrow> (Inl ''ENOENT'', w)
                               | Some c \<Rightarrow> (Inr c, w))),
      new_Date = (\<lambda>w. (\<lparr>toISOString = ''2025-11-03T10:00:00.000Z'',
                          getFullYear = 2025, getMonth = 10\<rparr>, w)),
      path_join = (\<lambda>a b. a @ ''/'' @ b),
      path_dirname = (\<lambda>p. rev (tl (dropWhile (\<lambda>c. c \<noteq> CHR ''/'') (rev p)))),
      stringify_RulesData = (\<lambda>d. ''bundle of '' @ firm_name d),
      parse_RulesData = (\<lambda>s. Inl ''Unexpected token''),
      storage_strings = ascii_strings\<rparr>"

text \<open>Three stored rules: one that denies without a reason, one whose run fails, one for
  another role.\<close>

definition rule_deny :: Rule where
  "rule_deny =
     \<lparr>rule_id = ''no_buys'', rule_name = ''No buys'', description = ''denies every trade'',
      policy_reference = ''Section 1'', python_code = ''deny'',
      applies_to_roles = [], active = True, generation_attempt = 1,
      validation_history = []\<rparr>"

definition rule_broken :: Rule where
  "rule_broken =
     \<lparr>rule_id = ''broken'', rule_name = ''Broken'', description = ''raises at run time'',
      policy_reference = ''Section 2'', python_code = ''broken'',
      applies_to_roles = [''Analyst''], active = True, generation_attempt = 1,
      validation_history = []\<rparr>"

definition rule_bankers :: Rule where
  "rule_bankers =
     \<lparr>rule_id = ''bankers'', rule_name = ''Bankers only'', description = ''for bankers'',
      policy_reference = ''Section 3'', python_code = ''deny'',
      applies_to_roles = [''Banker''], active = True, generation_attempt = 1,
      validation_history = []\<rparr>"

definition analyst :: Employee where
  "analyst = \<lparr>role = ''Analyst'', employee_members = [(''id'', JStr ''EMP002'')]\<rparr>"

definition tsla :: Security where
  "tsla = \<lparr>ticker = ''TSLA'', security_members = [(''requested_action'', JStr ''buy'')]\<rparr>"

text \<open>The output \<open>{"allowed": false}\<close> of a rule that denies and gives no reason.\<close>

definition stdout_deny :: string where
  "stdout_deny = ''{'' @ [CHR 0x22] @ ''allowed'' @ [CHR 0x22] @ '': false}''"

text \<open>
  A runner that prints that output for the code \<open>deny\<close> and exits with code 1 for any
  other code; its \<open>JSON.parse\<close> is given on the one document it has to read.
\<close>

definition demo_executor_env :: "world executor_env" where
  "demo_executor_env =
     \<lparr>runPythonCode = (\<lambda>p w.
         (if payload_code p = ''deny'' then Inr (stdout_deny @ [CHR 0x0A])
          else Inl ''Python exited with code 1: boom'',
          w\<lparr>runner_calls := Suc (runner_calls w)\<rparr>)),
      JSON_parse_stdout = (\<lambda>s.
         if s = stdout_deny then Some (JObj [(''allowed'', JBool False)]) else None),
      null_allowed_message = ''null is not an object''\<rparr>"

definition deny_bundle :: RulesData where
  "deny_bundle =
     \<lparr>firm_name = ''Meridian'', policy_version = ''2025-11'',
      last_updated = ''2025-11-03T10:00:00.000Z'', generated_by_llm = True,
      total_iterations = 1, rules = [rule_deny]\<rparr>"

definition mixed_bundle :: RulesData where
  "mixed_bundle =
     \<lparr>firm_name = ''Meridian'', policy_version = ''2025-11'',
      last_updated = ''2025-11-03T10:00:00.000Z'', generated_by_llm = True,
      total_iterations = 3, rules = [rule_bankers, rule_broken, rule_deny]\<rparr>"

definition deny_store :: RulesStorage where
  "deny_store = \<lparr>cache = [''Meridian'' \<mapsto> deny_bundle], rulesDir = ''rules/dynamic''\<rparr>"

definition mixed_store :: RulesStorage where
  "mixed_store = \<lparr>cache = [''Meridian'' \<mapsto> mixed_bundle], rulesDir = ''rules/dynamic''\<rparr>"

definition empty_store :: RulesStorage where
  "empty_store = \<lparr>cache = Map.empty, rulesDir = ''rules/dynamic''\<rparr>"




text \<open>
  A generator whose first draft has a syntax error and whose revision is accepted, with a
  validator that accepts exactly the code \<open>good\<close>; five attempts are allowed.
\<close>

definition draft_bad :: Rule where
  "draft_bad =
     \<lparr>rule_id = ''earnings_blackout'', rule_name = ''Earnings blackout'',
      description = ''no trades near earnings'', policy_reference = ''Section 3.1'',
      python_code = ''bad'', applies_to_roles = [], active = True, generation_attempt = 1,
      validation_history = []\<rparr>"

definition draft_good :: Rule where
  "draft_good =
     \<lparr>rule_id = ''blackout_v2'', rule_name = ''Earnings blackout'',
      description = ''no trades near earnings'', policy_reference = ''Section 3.1'',
      python_code = ''good'', applies_to_roles = [], active = True, generation_attempt = 1,
      validation_history = []\<rparr>"

definition flaky_pipeline_env :: "world pipeline_env" where
  "flaky_pipeline_env =
     \<lparr>generateRules = (\<lambda>c w. (Inr [draft_bad], w)),
      regenerateRule = (\<lambda>c w. (Inr [draft_good], w)),
      validator_validateRule = (\<lambda>r w.
         (if python_code r = ''good''
          then not_passed\<lparr>vr_passed := True, vr_test_output := Some ''{}''\<rparr>
          else not_passed\<lparr>vr_syntax_error := Some ''SYNTAX_ERROR: invalid syntax''\<rparr>, w)),
      Date_now_iso = (\<lambda>w. (''2025-11-03T10:00:00.000Z'', w)),
      maxIterationsPerRule = maxIterations_option None\<rparr>"

section \<open>Properties\<close>

subsection \<open>The static screener\<close>

lemma includes_str_sublist: "includes_str hay needle = sublist needle hay"
  by (induction hay) (auto simp: sublist_Cons_right)

lemma includes_str_iff:
  "includes_str hay needle \<longleftrightarrow> (\<exists>ps ss. hay = ps @ needle @ ss)"
  by (simp add: includes_str_sublist sublist_def)

lemma snippets_lower: "s \<in> set DANGEROUS_SNIPPETS \<Longrightarrow> toLowerCase s = s"
  by (auto simp: DANGEROUS_SNIPPETS_def toLowerCase_def toLower_char_def)

lemma scan_safe_iff:
  "safe (checkSecurity_scan lc snips) \<longleftrightarrow>
     (\<forall>s \<in> set snips. \<not> includes_str lc (toLowerCase s))"
  by (induction snips) (simp_all add: Let_def)

lemma scan_reason:
  "\<not> safe (checkSecurity_scan lc snips) \<Longrightarrow>
     \<exists>s \<in> set snips. includes_str lc (toLowerCase s) \<and>
        sc_reason (checkSecurity_scan lc snips) =
          Some (''Code contains insecure pattern: '' @ s)"
proof (induction snips)
  case Nil
  then show ?case by simp
next
  case (Cons a snips)
  show ?case
  proof (cases "includes_str lc (toLowerCase a)")
    case True
    then show ?thesis by (simp add: Let_def)
  next
    case False
    with Cons show ?thesis by (simp add: Let_def)
  qed
qed

lemma validateRule_rejected:
  "\<not> safe (checkSecurity (python_code rule)) \<Longrightarrow>
     validateRule env rule w =
       (not_passed\<lparr>vr_security_issue := sc_reason (checkSecurity (python_code rule))\<rparr>, w)"
  by (simp add: validateRule_def Let_def)

text \<open>
  C6. The screener rejects a code string exactly when its lowercased text contains one of
  the ten denylist substrings. When the screener rejects a rule's code, \<open>validateRule\<close>
  returns the not-passed result whose only field is the security issue naming a denylist
  pattern that occurs in the code, and it returns the world as it found it: no call to
  the sandbox service (create, run or delete) is made in that attempt.
\<close>

theorem static_screener_rejects:
  "(\<not> safe (checkSecurity code) \<longleftrightarrow>
      (\<exists>s \<in> set [''import os'', ''import subprocess'', ''from subprocess'', ''open('',
                    ''exec('', ''eval('', ''__import__'', ''os.system'', ''sys.stdout'',
                    ''sys.stderr''].
         \<exists>ps ss. toLowerCase code = ps @ s @ ss)) \<and>
   (\<not> safe (checkSecurity (python_code rule)) \<longrightarrow>
      (\<exists>s \<in> set DANGEROUS_SNIPPETS.
         (\<exists>ps ss. toLowerCase (python_code rule) = ps @ s @ ss) \<and>
         validateRule env rule w =
           (not_passed\<lparr>vr_security_issue :=
              Some (''Code contains insecure pattern: '' @ s)\<rparr>, w)))"
proof (intro conjI impI)
  have "\<not> safe (checkSecurity code) \<longleftrightarrow>
          (\<exists>s \<in> set DANGEROUS_SNIPPETS. includes_str (toLowerCase code) s)"
    by (auto simp: checkSecurity_def scan_safe_iff snippets_lower)
  then show "\<not> safe (checkSecurity code) \<longleftrightarrow>
      (\<exists>s \<in> set [''import os'', ''import subprocess'', ''from subprocess'', ''open('',
                    ''exec('', ''eval('', ''__import__'', ''os.system'', ''sys.stdout'',
                    ''sys.stderr''].
         \<exists>ps ss. toLowerCase code = ps @ s @ ss)"
    unfolding includes_str_iff DANGEROUS_SNIPPETS_def by blast
next
  assume rej: "\<not> safe (checkSecurity (python_code rule))"
  then obtain s where s: "s \<in> set DANGEROUS_SNIPPETS"
    and inc: "includes_str (toLowerCase (python_code rule)) (toLowerCase s)"
    and why: "sc_reason (checkSecurity (python_code rule)) =
                Some (''Code contains insecure pattern: '' @ s)"
    unfolding checkSecurity_def using scan_reason by blast
  from inc s have "\<exists>ps ss. toLowerCase (python_code rule) = ps @ s @ ss"
    by (simp add: snippets_lower includes_str_iff)
  moreover have "validateRule env rule w =
      (not_passed\<lparr>vr_security_issue := Some (''Code contains insecure pattern: '' @ s)\<rparr>, w)"
    using validateRule_rejected [OF rej] why by simp
  ultimately show "\<exists>s \<in> set DANGEROUS_SNIPPETS.
         (\<exists>ps ss. toLowerCase (python_code rule) = ps @ s @ ss) \<and>
         validateRule env rule w =
           (not_passed\<lparr>vr_security_issue :=
              Some (''Code contains insecure pattern: '' @ s)\<rparr>, w)"
    using s by blast
qed

theorem static_screener_rejects_witness:
  "\<not> safe (checkSecurity (python_code unsafe_rule)) \<and>
   validateRule counting_sandbox_env unsafe_rule 0 =
     (not_passed\<lparr>vr_security_issue := Some ''Code contains insecure pattern: import os''\<rparr>, 0)"
proof -
  have rej: "\<not> safe (checkSecurity (python_code unsafe_rule))"
    by code_simp
  have why: "sc_reason (checkSecurity (python_code unsafe_rule)) =
      Some ''Code contains insecure pattern: import os''"
    by code_simp
  from static_screener_rejects [of "python_code unsafe_rule" unsafe_rule counting_sandbox_env 0] rej
  obtain s where "validateRule counting_sandbox_env unsafe_rule 0 =
      (not_passed\<lparr>vr_security_issue := Some (''Code contains insecure pattern: '' @ s)\<rparr>, 0)"
    by blast
  moreover have "fst (validateRule counting_sandbox_env unsafe_rule 0) =
      not_passed\<lparr>vr_security_issue := Some ''Code contains insecure pattern: import os''\<rparr>"
    using validateRule_rejected [OF rej, of counting_sandbox_env 0] why by simp
  ultimately show ?thesis using rej by simp
qed

subsection \<open>The evaluation loop\<close>

lemma executions_rules:
  "map fst (executions env e s d rs w) = filter (\<lambda>r. \<not> skipped e r) rs"
  by (induction rs arbitrary: w) (auto split: prod.splits)

lemma loop_fold:
  "checkCompliance_loop env e s d rs resp w =
     (foldl (\<lambda>r x. apply_outcome x r) resp (executions env e s d rs w),
      foldl (\<lambda>w r. snd (executeRule env r e s d w)) w (filter (\<lambda>r. \<not> skipped e r) rs))"
proof (induction rs arbitrary: resp w)
  case Nil
  then show ?case by simp
next
  case (Cons rule rest)
  show ?case
  proof (cases "skipped e rule")
    case True
    then show ?thesis using Cons.IH by simp
  next
    case False
    obtain outcome w' where ex: "executeRule env rule e s d w = (outcome, w')"
      by (cases "executeRule env rule e s d w")
    show ?thesis
    proof (cases outcome)
      case (Inl msg)
      with False ex show ?thesis
        by (simp add: Cons.IH apply_outcome_def Let_def)
    next
      case (Inr execution)
      with False ex show ?thesis
        by (simp add: Cons.IH apply_outcome_def Let_def)
    qed
  qed
qed

lemma apply_outcome_allowed:
  "allowed (apply_outcome x resp) = (allowed resp \<and> \<not> (denied x \<or> raised x))"
  by (cases "snd x")
     (auto simp: apply_outcome_def on_result_def on_error_def denied_def raised_def Let_def
           split: option.splits)

lemma apply_outcome_checked:
  "rules_checked (apply_outcome x resp) = rules_checked resp @ [rule_name (fst x)]"
  by (cases "snd x")
     (auto simp: apply_outcome_def on_result_def on_error_def Let_def split: option.splits)

lemma apply_outcome_reasons:
  "reasons (apply_outcome x resp) = reasons resp @ reason_entries x"
  by (cases "snd x")
     (auto simp: apply_outcome_def on_result_def on_error_def reason_entries_def Let_def
           split: option.splits)

lemma apply_outcome_refs:
  "policy_refs (apply_outcome x resp) =
     policy_refs resp @ (if denied x \<or> raised x then [policy_reference (fst x)] else [])"
  by (cases "snd x")
     (auto simp: apply_outcome_def on_result_def on_error_def denied_def raised_def Let_def
           split: option.splits)

lemma fold_allowed:
  "allowed (foldl (\<lambda>r x. apply_outcome x r) resp xs) =
     (allowed resp \<and> \<not> list_ex (\<lambda>x. denied x \<or> raised x) xs)"
  by (induction xs arbitrary: resp) (simp_all add: apply_outcome_allowed)

lemma fold_checked:
  "rules_checked (foldl (\<lambda>r x. apply_outcome x r) resp xs) =
     rules_checked resp @ map (\<lambda>x. rule_name (fst x)) xs"
  by (induction xs arbitrary: resp) (simp_all add: apply_outcome_checked)

lemma fold_reasons:
  "reasons (foldl (\<lambda>r x. apply_outcome x r) resp xs) =
     reasons resp @ concat (map reason_entries xs)"
  by (induction xs arbitrary: resp) (simp_all add: apply_outcome_reasons)

lemma fold_refs:
  "policy_refs (foldl (\<lambda>r x. apply_outcome x r) resp xs) =
     policy_refs resp @
       map (\<lambda>x. policy_reference (fst x)) (filter (\<lambda>x. denied x \<or> raised x) xs)"
  by (induction xs arbitrary: resp) (simp_all add: apply_outcome_refs)

lemma checkCompliance_loaded:
  assumes "loadRules senv st firmName w = (Inr (Some stored), st', w')"
  shows "checkCompliance senv env st firmName e s d w =
     (Inr (fst (checkCompliance_loop env e s d (rules stored) empty_response w')), st',
      snd (checkCompliance_loop env e s d (rules stored) empty_response w'))"
  using assms by (simp add: checkCompliance_def split: prod.splits)

lemma demo_run_deny:
  "executeRule demo_executor_env rule_deny analyst tsla ''2025-11-03'' w =
     (Inr \<lparr>exec_allowed = False, exec_reason = None\<rparr>, w\<lparr>runner_calls := Suc (runner_calls w)\<rparr>)"
  by (simp add: executeRule_def demo_executor_env_def rule_deny_def trim_def is_space_def
      stdout_deny_def)

lemma demo_run_broken:
  "executeRule demo_executor_env rule_broken analyst tsla ''2025-11-03'' w =
     (Inl ''Python exited with code 1: boom'', w\<lparr>runner_calls := Suc (runner_calls w)\<rparr>)"
  by (simp add: executeRule_def demo_executor_env_def rule_broken_def)

lemma demo_skipped:
  "skipped analyst rule_bankers" "\<not> skipped analyst rule_broken" "\<not> skipped analyst rule_deny"
  by (simp_all add: skipped_def analyst_def rule_bankers_def rule_broken_def rule_deny_def)

lemma demo_load_deny:
  "loadRules demo_storage_env deny_store ''Meridian'' w = (Inr (Some deny_bundle), deny_store, w)"
  by (simp add: loadRules_def deny_store_def)

lemma demo_load_mixed:
  "loadRules demo_storage_env mixed_store ''Meridian'' w = (Inr (Some mixed_bundle), mixed_store, w)"
  by (simp add: loadRules_def mixed_store_def)

lemma demo_executions_deny:
  "executions demo_executor_env analyst tsla ''2025-11-03'' (rules deny_bundle) w =
     [(rule_deny, Inr \<lparr>exec_allowed = False, exec_reason = None\<rparr>)]"
  by (simp add: deny_bundle_def demo_skipped demo_run_deny)

lemma demo_executions_mixed:
  "executions demo_executor_env analyst tsla ''2025-11-03'' (rules mixed_bundle) w =
     [(rule_broken, Inl ''Python exited with code 1: boom''),
      (rule_deny, Inr \<lparr>exec_allowed = False, exec_reason = None\<rparr>)]"
  by (simp add: mixed_bundle_def demo_skipped demo_run_deny demo_run_broken)

lemma demo_fields:
  "rule_name rule_deny = ''No buys''" "policy_reference rule_deny = ''Section 1''"
  "rule_name rule_broken = ''Broken''" "policy_reference rule_broken = ''Section 2''"
  by (simp_all add: rule_deny_def rule_broken_def)

text \<open>
  C1, as stated, fails. A stored rule that returns \<open>{"allowed": false}\<close> with no reason
  makes the verdict \<open>allowed = false\<close> with an empty \<open>reasons\<close> list, although no rule
  raised: the reason of a denial is optional and is pushed only when truthy.
\<close>

theorem verdict_denied_without_reason_counterexample:
  "checkCompliance demo_storage_env demo_executor_env deny_store ''Meridian'' analyst tsla
       ''2025-11-03'' world0 =
     (Inr \<lparr>allowed = False, reasons = [], policy_refs = [''Section 1''],
           rules_checked = [''No buys'']\<rparr>,
      deny_store, world0\<lparr>runner_calls := 1\<rparr>) \<and>
   \<not> list_ex raised
       (executions demo_executor_env analyst tsla ''2025-11-03'' (rules deny_bundle) world0) \<and>
   \<not> (\<not> allowed (fst (checkCompliance_loop demo_executor_env analyst tsla ''2025-11-03''
                        (rules deny_bundle) empty_response world0)) \<longleftrightarrow>
        (reasons (fst (checkCompliance_loop demo_executor_env analyst tsla ''2025-11-03''
                        (rules deny_bundle) empty_response world0)) \<noteq> [] \<or>
         list_ex raised
           (executions demo_executor_env analyst tsla ''2025-11-03'' (rules deny_bundle)
              world0)))"
proof -
  have loop: "checkCompliance_loop demo_executor_env analyst tsla ''2025-11-03''
        (rules deny_bundle) empty_response world0 =
      (\<lparr>allowed = False, reasons = [], policy_refs = [''Section 1''],
        rules_checked = [''No buys'']\<rparr>, world0\<lparr>runner_calls := 1\<rparr>)"
    by (simp add: loop_fold demo_executions_deny apply_outcome_def on_result_def
        empty_response_def demo_fields deny_bundle_def demo_skipped demo_run_deny world0_def)
  have ex: "\<not> list_ex raised
       (executions demo_executor_env analyst tsla ''2025-11-03'' (rules deny_bundle) world0)"
    by (simp add: demo_executions_deny raised_def)
  have run: "checkCompliance demo_storage_env demo_executor_env deny_store ''Meridian'' analyst
       tsla ''2025-11-03'' world0 =
     (Inr \<lparr>allowed = False, reasons = [], policy_refs = [''Section 1''],
           rules_checked = [''No buys'']\<rparr>, deny_store, world0\<lparr>runner_calls := 1\<rparr>)"
    by (simp add: checkCompliance_loaded [OF demo_load_deny] loop)
  show ?thesis
    using run ex by (simp add: loop)
qed

text \<open>
  C1, amended. When the firm has no stored bundle the verdict is allowed with empty lists.
  For a stored bundle, \<open>checkCompliance\<close> returns a verdict and \<open>allowed\<close> is false exactly
  when some invoked rule returned \<open>allowed = false\<close> or raised during execution.
  \<open>reasons\<close> holds, in execution order, the synthetic reason of every execution that
  raised and the reason of every denial that returned a truthy one, and nothing else; so
  it is empty exactly when no rule raised and no denial came with a truthy reason.
  \<open>policy_refs\<close> holds the reference of every rule that denied or raised. Hence whenever
  \<open>reasons\<close> is non-empty or a rule raised, \<open>allowed\<close> is false, and a raise always
  leaves a reason.
\<close>

theorem verdict_denied_iff:
  "(loadRules senv st firmName w = (Inr None, st', w') \<longrightarrow>
      checkCompliance senv env st firmName e s d w = (Inr empty_response, st', w')) \<and>
   (loadRules senv st firmName w = (Inr (Some stored), st', w') \<longrightarrow>
      (\<exists>response w''.
         checkCompliance senv env st firmName e s d w = (Inr response, st', w'') \<and>
         (\<not> allowed response \<longleftrightarrow>
            list_ex (\<lambda>x. denied x \<or> raised x) (executions env e s d (rules stored) w')) \<and>
         (reasons response \<noteq> [] \<or> list_ex raised (executions env e s d (rules stored) w')
            \<longrightarrow> \<not> allowed response) \<and>
         (list_ex raised (executions env e s d (rules stored) w')
            \<longrightarrow> reasons response \<noteq> []) \<and>
         reasons response =
           concat (map reason_entries (executions env e s d (rules stored) w')) \<and>
         (reasons response = [] \<longleftrightarrow>
            \<not> list_ex gives_reason (executions env e s d (rules stored) w')) \<and>
         policy_refs response =
           map (\<lambda>x. policy_reference (fst x))
             (filter (\<lambda>x. denied x \<or> raised x) (executions env e s d (rules stored) w'))))"
proof (intro conjI impI)
  assume "loadRules senv st firmName w = (Inr None, st', w')"
  then show "checkCompliance senv env st firmName e s d w = (Inr empty_response, st', w')"
    by (simp add: checkCompliance_def)
next
  assume load: "loadRules senv st firmName w = (Inr (Some stored), st', w')"
  define xs where "xs = executions env e s d (rules stored) w'"
  define response where
    "response = fst (checkCompliance_loop env e s d (rules stored) empty_response w')"
  have resp: "response = foldl (\<lambda>r x. apply_outcome x r) empty_response xs"
    by (simp add: response_def xs_def loop_fold)
  have al: "\<not> allowed response \<longleftrightarrow> list_ex (\<lambda>x. denied x \<or> raised x) xs"
    by (simp add: resp fold_allowed empty_response_def)
  have rs: "reasons response = concat (map reason_entries xs)"
    by (simp add: resp fold_reasons empty_response_def)
  have pr: "policy_refs response =
      map (\<lambda>x. policy_reference (fst x)) (filter (\<lambda>x. denied x \<or> raised x) xs)"
    by (simp add: resp fold_refs empty_response_def)
  have entry: "reason_entries x \<noteq> [] \<Longrightarrow> denied x \<or> raised x" for x
    by (cases "snd x") (auto simp: reason_entries_def denied_def raised_def split: if_splits)
  have a: "reasons response \<noteq> [] \<or> list_ex raised xs \<longrightarrow> \<not> allowed response"
    using entry by (auto simp: al rs list_ex_iff)
  have entry2: "raised x \<Longrightarrow> reason_entries x \<noteq> []" for x
    by (cases "snd x") (auto simp: reason_entries_def raised_def)
  have b: "list_ex raised xs \<longrightarrow> reasons response \<noteq> []"
    using entry2 by (auto simp: rs list_ex_iff)
  have entry3: "reason_entries x = [] \<longleftrightarrow> \<not> gives_reason x" for x
    by (cases "snd x")
       (auto simp: reason_entries_def gives_reason_def split: option.splits)
  have c: "reasons response = [] \<longleftrightarrow> \<not> list_ex gives_reason xs"
    by (simp add: rs entry3 list_ex_iff)
  have run: "checkCompliance senv env st firmName e s d w =
      (Inr response, st', snd (checkCompliance_loop env e s d (rules stored) empty_response w'))"
    by (simp add: checkCompliance_loaded [OF load] response_def)
  have "\<exists>response w''.
         checkCompliance senv env st firmName e s d w = (Inr response, st', w'') \<and>
         (\<not> allowed response \<longleftrightarrow> list_ex (\<lambda>x. denied x \<or> raised x) xs) \<and>
         (reasons response \<noteq> [] \<or> list_ex raised xs \<longrightarrow> \<not> allowed response) \<and>
         (list_ex raised xs \<longrightarrow> reasons response \<noteq> []) \<and>
         reasons response = concat (map reason_entries xs) \<and>
         (reasons response = [] \<longleftrightarrow> \<not> list_ex gives_reason xs) \<and>
         policy_refs response =
           map (\<lambda>x. policy_reference (fst x)) (filter (\<lambda>x. denied x \<or> raised x) xs)"
    by (intro exI [of _ response]
          exI [of _ "snd (checkCompliance_loop env e s d (rules stored) empty_response w')"]
          conjI)
       (rule run al a b rs c pr)+
  then show "\<exists>response w''.
         checkCompliance senv env st firmName e s d w = (Inr response, st', w'') \<and>
         (\<not> allowed response \<longleftrightarrow>
            list_ex (\<lambda>x. denied x \<or> raised x) (executions env e s d (rules stored) w')) \<and>
         (reasons response \<noteq> [] \<or> list_ex raised (executions env e s d (rules stored) w')
            \<longrightarrow> \<not> allowed response) \<and>
         (list_ex raised (executions env e s d (rules stored) w')
            \<longrightarrow> reasons response \<noteq> []) \<and>
         reasons response =
           concat (map reason_entries (executions env e s d (rules stored) w')) \<and>
         (reasons response = [] \<longleftrightarrow>
            \<not> list_ex gives_reason (executions env e s d (rules stored) w')) \<and>
         policy_refs response =
           map (\<lambda>x. policy_reference (fst x))
             (filter (\<lambda>x. denied x \<or> raised x) (executions env e s d (rules stored) w'))"
    unfolding xs_def .
qed

lemma demo_load_none:
  "loadRules demo_storage_env empty_store ''Acme'' world0 = (Inr None, empty_store, world0)"
  by (simp add: loadRules_def empty_store_def demo_storage_env_def world0_def)

lemma demo_check_mixed:
  "checkCompliance demo_storage_env demo_executor_env mixed_store ''Meridian'' analyst tsla
       ''2025-11-03'' world0 =
     (Inr \<lparr>allowed = False,
           reasons = [JStr ''Rule Broken execution failed: Python exited with code 1: boom''],
           policy_refs = [''Section 2'', ''Section 1''],
           rules_checked = [''Broken'', ''No buys'']\<rparr>,
      mixed_store, world0\<lparr>runner_calls := 2\<rparr>)"
  by (simp add: checkCompliance_loaded [OF demo_load_mixed] loop_fold demo_executions_mixed
      apply_outcome_def on_result_def on_error_def empty_response_def demo_fields
      mixed_bundle_def demo_skipped demo_run_deny demo_run_broken world0_def)

theorem verdict_denied_iff_witness:
  "loadRules demo_storage_env empty_store ''Acme'' world0 = (Inr None, empty_store, world0) \<and>
   checkCompliance demo_storage_env demo_executor_env empty_store ''Acme'' analyst tsla
       ''2025-11-03'' world0 = (Inr empty_response, empty_store, world0) \<and>
   loadRules demo_storage_env mixed_store ''Meridian'' world0 =
     (Inr (Some mixed_bundle), mixed_store, world0) \<and>
   list_ex raised
     (executions demo_executor_env analyst tsla ''2025-11-03'' (rules mixed_bundle) world0) \<and>
   (\<exists>response w''.
      checkCompliance demo_storage_env demo_executor_env mixed_store ''Meridian'' analyst tsla
        ''2025-11-03'' world0 = (Inr response, mixed_store, w'') \<and>
      \<not> allowed response \<and> reasons response \<noteq> [])"
proof -
  note inst1 = verdict_denied_iff [of demo_storage_env empty_store "''Acme''" world0
      empty_store world0 demo_executor_env analyst tsla "''2025-11-03''"]
  note inst2 = verdict_denied_iff [of demo_storage_env mixed_store "''Meridian''" world0
      mixed_store world0 demo_executor_env analyst tsla "''2025-11-03''" mixed_bundle]
  have r: "list_ex raised
     (executions demo_executor_env analyst tsla ''2025-11-03'' (rules mixed_bundle) world0)"
    by (simp add: demo_executions_mixed raised_def)
  have a:
    "checkCompliance demo_storage_env demo_executor_env empty_store ''Acme'' analyst tsla
       ''2025-11-03'' world0 = (Inr empty_response, empty_store, world0)"
    by (rule inst1 [THEN conjunct1, rule_format, OF demo_load_none])
  from inst2 [THEN conjunct2, rule_format, OF demo_load_mixed] obtain response w'' where
    run: "checkCompliance demo_storage_env demo_executor_env mixed_store ''Meridian'' analyst
        tsla ''2025-11-03'' world0 = (Inr response, mixed_store, w'')"
    and imp: "list_ex raised (executions demo_executor_env analyst tsla ''2025-11-03''
        (rules mixed_bundle) world0) \<longrightarrow> reasons response \<noteq> []"
    and imp2: "reasons response \<noteq> [] \<or> list_ex raised (executions demo_executor_env analyst
        tsla ''2025-11-03'' (rules mixed_bundle) world0) \<longrightarrow> \<not> allowed response"
    by auto
  from imp r have nonempty: "reasons response \<noteq> []" by simp
  with imp2 have "\<not> allowed response" by simp
  with run nonempty have b: "\<exists>response w''.
      checkCompliance demo_storage_env demo_executor_env mixed_store ''Meridian'' analyst tsla
        ''2025-11-03'' world0 = (Inr response, mixed_store, w'') \<and>
      \<not> allowed response \<and> reasons response \<noteq> []"
    by (intro exI conjI)
  show ?thesis
    by (intro conjI) (rule demo_load_none a demo_load_mixed r b)+
qed

text \<open>
  C3. A rule is invoked exactly when it is active and its role list is empty or contains
  \<open>employee.role\<close> (equality of strings). For a stored bundle, the rules executed are the
  applicable rules of the bundle in stored order, each of them whatever the earlier ones
  returned: the world \<open>checkCompliance\<close> ends in is the one reached by running
  \<open>executeRule\<close> on every applicable rule in turn, and \<open>rules_checked\<close> is the list of
  their names.
\<close>

theorem checkCompliance_invokes_applicable_rules:
  "(\<not> skipped e r \<longleftrightarrow>
      active r \<and> (applies_to_roles r = [] \<or> role e \<in> set (applies_to_roles r))) \<and>
   (loadRules senv st firmName w = (Inr (Some stored), st', w') \<longrightarrow>
      (\<exists>response w''.
         checkCompliance senv env st firmName e s d w = (Inr response, st', w'') \<and>
         map fst (executions env e s d (rules stored) w') =
           filter (\<lambda>r. \<not> skipped e r) (rules stored) \<and>
         w'' = foldl (\<lambda>w r. snd (executeRule env r e s d w)) w'
                 (filter (\<lambda>r. \<not> skipped e r) (rules stored)) \<and>
         rules_checked response =
           map rule_name (filter (\<lambda>r. \<not> skipped e r) (rules stored))))"
proof (intro conjI impI)
  show "\<not> skipped e r \<longleftrightarrow>
      active r \<and> (applies_to_roles r = [] \<or> role e \<in> set (applies_to_roles r))"
    by (auto simp: skipped_def)
next
  assume load: "loadRules senv st firmName w = (Inr (Some stored), st', w')"
  define applicable where "applicable = filter (\<lambda>r. \<not> skipped e r) (rules stored)"
  have names: "rules_checked (fst (checkCompliance_loop env e s d (rules stored)
                   empty_response w')) = map rule_name applicable"
  proof -
    have "map (\<lambda>x. rule_name (fst x)) (executions env e s d (rules stored) w') =
          map rule_name (map fst (executions env e s d (rules stored) w'))"
      by (simp add: comp_def)
    then show ?thesis
      by (simp add: loop_fold fold_checked empty_response_def executions_rules applicable_def)
  qed
  have world: "snd (checkCompliance_loop env e s d (rules stored) empty_response w') =
      foldl (\<lambda>w r. snd (executeRule env r e s d w)) w' applicable"
    by (simp add: loop_fold applicable_def)
  have run: "checkCompliance senv env st firmName e s d w =
      (Inr (fst (checkCompliance_loop env e s d (rules stored) empty_response w')), st',
       foldl (\<lambda>w r. snd (executeRule env r e s d w)) w' applicable)"
    using checkCompliance_loaded [OF load, of env e s d] by (simp only: world)
  show "\<exists>response w''.
         checkCompliance senv env st firmName e s d w = (Inr response, st', w'') \<and>
         map fst (executions env e s d (rules stored) w') =
           filter (\<lambda>r. \<not> skipped e r) (rules stored) \<and>
         w'' = foldl (\<lambda>w r. snd (executeRule env r e s d w)) w'
                 (filter (\<lambda>r. \<not> skipped e r) (rules stored)) \<and>
         rules_checked response =
           map rule_name (filter (\<lambda>r. \<not> skipped e r) (rules stored))"
  proof (intro exI conjI)
    show "checkCompliance senv env st firmName e s d w =
      (Inr (fst (checkCompliance_loop env e s d (rules stored) empty_response w')), st',
       foldl (\<lambda>w r. snd (executeRule env r e s d w)) w'
         (filter (\<lambda>r. \<not> skipped e r) (rules stored)))"
      using run by (simp only: applicable_def)
    show "map fst (executions env e s d (rules stored) w') =
           filter (\<lambda>r. \<not> skipped e r) (rules stored)"
      by (rule executions_rules)
    show "foldl (\<lambda>w r. snd (executeRule env r e s d w)) w'
            (filter (\<lambda>r. \<not> skipped e r) (rules stored)) =
          foldl (\<lambda>w r. snd (executeRule env r e s d w)) w'
            (filter (\<lambda>r. \<not> skipped e r) (rules stored))"
      by (rule refl)
    show "rules_checked (fst (checkCompliance_loop env e s d (rules stored)
                   empty_response w')) =
           map rule_name (filter (\<lambda>r. \<not> skipped e r) (rules stored))"
      using names by (simp only: applicable_def)
  qed
qed

theorem checkCompliance_invokes_applicable_rules_witness:
  "loadRules demo_storage_env mixed_store ''Meridian'' world0 =
     (Inr (Some mixed_bundle), mixed_store, world0) \<and>
   filter (\<lambda>r. \<not> skipped analyst r) (rules mixed_bundle) = [rule_broken, rule_deny] \<and>
   (\<exists>response w''.
      checkCompliance demo_storage_env demo_executor_env mixed_store ''Meridian'' analyst tsla
        ''2025-11-03'' world0 = (Inr response, mixed_store, w'') \<and>
      rules_checked response = [''Broken'', ''No buys''] \<and>
      w'' = world0\<lparr>runner_calls := 2\<rparr>)"
proof -
  note inst = checkCompliance_invokes_applicable_rules [of analyst rule_deny demo_storage_env
      mixed_store "''Meridian''" world0 mixed_bundle mixed_store world0 demo_executor_env
      tsla "''2025-11-03''"]
  have f: "filter (\<lambda>r. \<not> skipped analyst r) (rules mixed_bundle) = [rule_broken, rule_deny]"
    by (simp add: mixed_bundle_def demo_skipped)
  have w2: "foldl (\<lambda>w r. snd (executeRule demo_executor_env r analyst tsla ''2025-11-03'' w))
       world0 [rule_broken, rule_deny] = world0\<lparr>runner_calls := 2\<rparr>"
    by (simp add: demo_run_deny demo_run_broken world0_def)
  from inst [THEN conjunct2, rule_format, OF demo_load_mixed] obtain response w'' where
    run: "checkCompliance demo_storage_env demo_executor_env mixed_store ''Meridian'' analyst
        tsla ''2025-11-03'' world0 = (Inr response, mixed_store, w'')"
    and wd: "w'' = foldl
       (\<lambda>w r. snd (executeRule demo_executor_env r analyst tsla ''2025-11-03'' w))
       world0 (filter (\<lambda>r. \<not> skipped analyst r) (rules mixed_bundle))"
    and names: "rules_checked response =
       map rule_name (filter (\<lambda>r. \<not> skipped analyst r) (rules mixed_bundle))"
    by auto
  from wd have wd': "w'' = world0\<lparr>runner_calls := 2\<rparr>"
    by (simp only: f w2)
  from names have names': "rules_checked response = [''Broken'', ''No buys'']"
    by (simp only: f list.map demo_fields)
  from run names' wd' have b: "\<exists>response w''.
      checkCompliance demo_storage_env demo_executor_env mixed_store ''Meridian'' analyst tsla
        ''2025-11-03'' world0 = (Inr response, mixed_store, w'') \<and>
      rules_checked response = [''Broken'', ''No buys''] \<and>
      w'' = world0\<lparr>runner_calls := 2\<rparr>"
    by (intro exI conjI)
  show ?thesis
    by (intro conjI) (rule demo_load_mixed f b)+
qed

subsection \<open>Failed executions\<close>

lemma executeRule_fails_iff:
  "(\<exists>msg. fst (executeRule env rule e s d w0) = Inl msg) \<longleftrightarrow>
     (case runPythonCode env
             \<lparr>payload_code = python_code rule, payload_employee = e,
              payload_security = s, payload_date = d\<rparr> w0 of
        (Inl m, w1) \<Rightarrow> True
      | (Inr out, w1) \<Rightarrow>
          (case JSON_parse_stdout env (trim out) of
             None \<Rightarrow> True
           | Some v \<Rightarrow> \<not> is_boolean (member_of v ''allowed'')))"
proof -
  obtain res w1 where run: "runPythonCode env
             \<lparr>payload_code = python_code rule, payload_employee = e,
              payload_security = s, payload_date = d\<rparr> w0 = (res, w1)"
    by (cases "runPythonCode env
             \<lparr>payload_code = python_code rule, payload_employee = e,
              payload_security = s, payload_date = d\<rparr> w0")
  show ?thesis
  proof (cases res)
    case (Inl m)
    with run show ?thesis by (simp add: executeRule_def)
  next
    case (Inr out)
    show ?thesis
    proof (cases "JSON_parse_stdout env (trim out)")
      case None
      with run Inr show ?thesis by (simp add: executeRule_def)
    next
      case (Some v)
      show ?thesis
      proof (cases "member_of v ''allowed''")
        case None
        with run Inr Some show ?thesis by (simp add: executeRule_def)
      next
        case (Some a)
        then have "v \<noteq> JNull" by auto
        with run Inr \<open>JSON_parse_stdout env (trim out) = Some v\<close> Some show ?thesis
          by (cases a) (simp_all add: executeRule_def)
      qed
    qed
  qed
qed

lemma loop_on_failure:
  assumes "\<not> skipped e rule" and "executeRule env rule e s d w0 = (Inl msg, w1)"
  shows "checkCompliance_loop env e s d (rule # rest) resp w0 =
       checkCompliance_loop env e s d rest
         (resp\<lparr>rules_checked := rules_checked resp @ [rule_name rule],
               allowed := False,
               reasons := reasons resp @
                 [JStr (''Rule '' @ rule_name rule @ '' execution failed: '' @ msg)],
               policy_refs := policy_refs resp @ [policy_reference rule]\<rparr>) w1"
  using assms by (simp add: on_error_def)

lemma failure_in_verdict:
  assumes "(failing, Inl msg) \<in> set xs"
  shows "\<not> allowed (foldl (\<lambda>r x. apply_outcome x r) empty_response xs) \<and>
     JStr (''Rule '' @ rule_name failing @ '' execution failed: '' @ msg)
       \<in> set (reasons (foldl (\<lambda>r x. apply_outcome x r) empty_response xs)) \<and>
     policy_reference failing
       \<in> set (policy_refs (foldl (\<lambda>r x. apply_outcome x r) empty_response xs))"
proof -
  have r: "raised (failing, Inl msg)" by (simp add: raised_def)
  with assms have "list_ex (\<lambda>x. denied x \<or> raised x) xs"
    by (auto simp: list_ex_iff)
  then have 1: "\<not> allowed (foldl (\<lambda>r x. apply_outcome x r) empty_response xs)"
    by (simp add: fold_allowed)
  have "reason_entries (failing, Inl msg) =
      [JStr (''Rule '' @ rule_name failing @ '' execution failed: '' @ msg)]"
    by (simp add: reason_entries_def)
  with assms have 2: "JStr (''Rule '' @ rule_name failing @ '' execution failed: '' @ msg)
       \<in> set (reasons (foldl (\<lambda>r x. apply_outcome x r) empty_response xs))"
    by (force simp: fold_reasons)
  from assms r have "(failing, Inl msg) \<in> set (filter (\<lambda>x. denied x \<or> raised x) xs)"
    by simp
  then have 3: "policy_reference failing
       \<in> set (policy_refs (foldl (\<lambda>r x. apply_outcome x r) empty_response xs))"
    by (auto simp: fold_refs empty_response_def intro!: image_eqI [where x = "(failing, Inl msg)"])
  from 1 2 3 show ?thesis by simp
qed

text \<open>
  C4. The execution of a rule fails exactly when the runner rejects (transport error,
  time-out, non-zero exit), when its output is not JSON, or when the parsed result has no
  boolean \<open>allowed\<close>. When the execution of an applicable rule fails with message
  \<open>msg\<close>, the loop goes on with the next rule after recording the rule as checked,
  setting \<open>allowed\<close> to false and appending \<open>"Rule <name> execution failed: <msg>"\<close> to
  \<open>reasons\<close> and the rule's \<open>policy_reference\<close> to \<open>policy_refs\<close>. So for a stored
  bundle \<open>checkCompliance\<close> always returns a verdict, and for every failed execution
  of the run the verdict is a denial that carries that reason and that reference.
\<close>

theorem failed_execution_is_denial:
  "((\<exists>m. fst (executeRule env rule e s d w0) = Inl m) \<longleftrightarrow>
      (case runPythonCode env
              \<lparr>payload_code = python_code rule, payload_employee = e,
               payload_security = s, payload_date = d\<rparr> w0 of
         (Inl m, w1) \<Rightarrow> True
       | (Inr out, w1) \<Rightarrow>
           (case JSON_parse_stdout env (trim out) of
              None \<Rightarrow> True
            | Some v \<Rightarrow> \<not> is_boolean (member_of v ''allowed'')))) \<and>
   (\<not> skipped e rule \<and> executeRule env rule e s d w0 = (Inl msg, w1) \<longrightarrow>
      checkCompliance_loop env e s d (rule # rest) resp w0 =
        checkCompliance_loop env e s d rest
          (resp\<lparr>rules_checked := rules_checked resp @ [rule_name rule],
                allowed := False,
                reasons := reasons resp @
                  [JStr (''Rule '' @ rule_name rule @ '' execution failed: '' @ msg)],
                policy_refs := policy_refs resp @ [policy_reference rule]\<rparr>) w1) \<and>
   (loadRules senv st firmName w = (Inr (Some stored), st', w') \<longrightarrow>
      (\<exists>response w''.
         checkCompliance senv env st firmName e s d w = (Inr response, st', w'') \<and>
         (\<forall>failing m. (failing, Inl m) \<in> set (executions env e s d (rules stored) w') \<longrightarrow>
            \<not> allowed response \<and>
            JStr (''Rule '' @ rule_name failing @ '' execution failed: '' @ m)
              \<in> set (reasons response) \<and>
            policy_reference failing \<in> set (policy_refs response))))"
proof (intro conjI impI)
  show "(\<exists>m. fst (executeRule env rule e s d w0) = Inl m) \<longleftrightarrow>
      (case runPythonCode env
              \<lparr>payload_code = python_code rule, payload_employee = e,
               payload_security = s, payload_date = d\<rparr> w0 of
         (Inl m, w1) \<Rightarrow> True
       | (Inr out, w1) \<Rightarrow>
           (case JSON_parse_stdout env (trim out) of
              None \<Rightarrow> True
            | Some v \<Rightarrow> \<not> is_boolean (member_of v ''allowed'')))"
    by (rule executeRule_fails_iff)
next
  assume "\<not> skipped e rule \<and> executeRule env rule e s d w0 = (Inl msg, w1)"
  then show "checkCompliance_loop env e s d (rule # rest) resp w0 =
        checkCompliance_loop env e s d rest
          (resp\<lparr>rules_checked := rules_checked resp @ [rule_name rule],
                allowed := False,
                reasons := reasons resp @
                  [JStr (''Rule '' @ rule_name rule @ '' execution failed: '' @ msg)],
                policy_refs := policy_refs resp @ [policy_reference rule]\<rparr>) w1"
    using loop_on_failure [of e rule env s d w0 msg w1 rest resp] by simp
next
  assume load: "loadRules senv st firmName w = (Inr (Some stored), st', w')"
  define response where
    "response = fst (checkCompliance_loop env e s d (rules stored) empty_response w')"
  have resp: "response =
      foldl (\<lambda>r x. apply_outcome x r) empty_response (executions env e s d (rules stored) w')"
    by (simp add: response_def loop_fold)
  show "\<exists>response w''.
         checkCompliance senv env st firmName e s d w = (Inr response, st', w'') \<and>
         (\<forall>failing m. (failing, Inl m) \<in> set (executions env e s d (rules stored) w') \<longrightarrow>
            \<not> allowed response \<and>
            JStr (''Rule '' @ rule_name failing @ '' execution failed: '' @ m)
              \<in> set (reasons response) \<and>
            policy_reference failing \<in> set (policy_refs response))"
  proof (rule exI [of _ response],
         rule exI [of _ "snd (checkCompliance_loop env e s d (rules stored) empty_response w')"],
         rule conjI)
    show "checkCompliance senv env st firmName e s d w =
        (Inr response, st',
         snd (checkCompliance_loop env e s d (rules stored) empty_response w'))"
      by (simp add: checkCompliance_loaded [OF load] response_def)
  next
    show "\<forall>failing m. (failing, Inl m) \<in> set (executions env e s d (rules stored) w') \<longrightarrow>
            \<not> allowed response \<and>
            JStr (''Rule '' @ rule_name failing @ '' execution failed: '' @ m)
              \<in> set (reasons response) \<and>
            policy_reference failing \<in> set (policy_refs response)"
    proof (intro allI impI)
      fix failing m
      assume "(failing, Inl m) \<in> set (executions env e s d (rules stored) w')"
      from failure_in_verdict [OF this]
      show "\<not> allowed response \<and>
            JStr (''Rule '' @ rule_name failing @ '' execution failed: '' @ m)
              \<in> set (reasons response) \<and>
            policy_reference failing \<in> set (policy_refs response)"
        unfolding resp .
    qed
  qed
qed

theorem failed_execution_is_denial_witness:
  "\<not> skipped analyst rule_broken \<and>
   executeRule demo_executor_env rule_broken analyst tsla ''2025-11-03'' world0 =
     (Inl ''Python exited with code 1: boom'', world0\<lparr>runner_calls := 1\<rparr>) \<and>
   checkCompliance_loop demo_executor_env analyst tsla ''2025-11-03'' [rule_broken]
       empty_response world0 =
     (\<lparr>allowed = False,
       reasons = [JStr ''Rule Broken execution failed: Python exited with code 1: boom''],
       policy_refs = [''Section 2''], rules_checked = [''Broken'']\<rparr>,
      world0\<lparr>runner_calls := 1\<rparr>) \<and>
   loadRules demo_storage_env mixed_store ''Meridian'' world0 =
     (Inr (Some mixed_bundle), mixed_store, world0) \<and>
   (rule_broken, Inl ''Python exited with code 1: boom'')
     \<in> set (executions demo_executor_env analyst tsla ''2025-11-03'' (rules mixed_bundle)
              world0) \<and>
   (\<exists>response w''.
      checkCompliance demo_storage_env demo_executor_env mixed_store ''Meridian'' analyst tsla
        ''2025-11-03'' world0 = (Inr response, mixed_store, w'') \<and>
      \<not> allowed response \<and>
      JStr ''Rule Broken execution failed: Python exited with code 1: boom''
        \<in> set (reasons response) \<and>
      ''Section 2'' \<in> set (policy_refs response))"
proof -
  note inst = failed_execution_is_denial [of demo_executor_env rule_broken analyst tsla
      "''2025-11-03''" world0 "''Python exited with code 1: boom''"
      "world0\<lparr>runner_calls := 1\<rparr>" "[]" empty_response demo_storage_env mixed_store
      "''Meridian''" world0 mixed_bundle mixed_store world0]
  have sk: "\<not> skipped analyst rule_broken" by (rule demo_skipped)
  have ex: "executeRule demo_executor_env rule_broken analyst tsla ''2025-11-03'' world0 =
     (Inl ''Python exited with code 1: boom'', world0\<lparr>runner_calls := 1\<rparr>)"
    by (simp add: demo_run_broken world0_def)
  from inst [THEN conjunct2, THEN conjunct1, rule_format, OF conjI [OF sk ex]]
  have step: "checkCompliance_loop demo_executor_env analyst tsla ''2025-11-03'' [rule_broken]
       empty_response world0 =
     (\<lparr>allowed = False,
       reasons = [JStr ''Rule Broken execution failed: Python exited with code 1: boom''],
       policy_refs = [''Section 2''], rules_checked = [''Broken'']\<rparr>,
      world0\<lparr>runner_calls := 1\<rparr>)"
    by (simp add: empty_response_def demo_fields)
  have mem: "(rule_broken, Inl ''Python exited with code 1: boom'')
     \<in> set (executions demo_executor_env analyst tsla ''2025-11-03'' (rules mixed_bundle)
              world0)"
    by (simp add: demo_executions_mixed)
  from inst [THEN conjunct2, THEN conjunct2, rule_format, OF demo_load_mixed]
  obtain response w'' where
    run: "checkCompliance demo_storage_env demo_executor_env mixed_store ''Meridian'' analyst
        tsla ''2025-11-03'' world0 = (Inr response, mixed_store, w'')"
    and all: "\<forall>failing m. (failing, Inl m)
        \<in> set (executions demo_executor_env analyst tsla ''2025-11-03'' (rules mixed_bundle)
                 world0) \<longrightarrow>
        \<not> allowed response \<and>
        JStr (''Rule '' @ rule_name failing @ '' execution failed: '' @ m)
          \<in> set (reasons response) \<and>
        policy_reference failing \<in> set (policy_refs response)"
    by auto
  from all [rule_format, OF mem] have na: "\<not> allowed response"
    and rs: "JStr ''Rule Broken execution failed: Python exited with code 1: boom''
        \<in> set (reasons response)"
    and pr: "''Section 2'' \<in> set (policy_refs response)"
    by (simp_all add: demo_fields)
  from run na rs pr have b: "\<exists>response w''.
      checkCompliance demo_storage_env demo_executor_env mixed_store ''Meridian'' analyst tsla
        ''2025-11-03'' world0 = (Inr response, mixed_store, w'') \<and>
      \<not> allowed response \<and>
      JStr ''Rule Broken execution failed: Python exited with code 1: boom''
        \<in> set (reasons response) \<and>
      ''Section 2'' \<in> set (policy_refs response)"
    by (intro exI conjI)
  show ?thesis
    by (intro conjI) (rule sk ex step demo_load_mixed mem b)+
qed

subsection \<open>Employee lookup\<close>










subsection \<open>The refinement loop\<close>

lemma refine_pass_cases:
  obtains (passed) v w1 ts w2 where
      "validator_validateRule env (cur\<lparr>generation_attempt := a\<rparr>) w = (v, w1)"
      "Date_now_iso env w1 = (ts, w2)" "vr_passed v"
      "refine_pass env init p f cur a w =
         (Return (Inr \<lparr>validated = True,
            result_rule = cur\<lparr>generation_attempt := a,
              validation_history := validation_history cur @
                [\<lparr>attempt_number = a, passed = True, error = consolidated_error v,
                  test_output = vr_test_output v, feedback_to_llm = None,
                  timestamp = ts\<rparr>]\<rparr>,
            iterations = a\<rparr>), w2)"
  | (stopped) res w' where
      "refine_pass env init p f cur a w = (Return res, w')"
      "case res of Inl e \<Rightarrow> True | Inr r \<Rightarrow> \<not> validated r \<and> iterations r = a"
  | (again) nxt w' entry where
      "refine_pass env init p f cur a w = (Continue nxt, w')"
      "validation_history nxt = validation_history cur @ [entry]"
      "attempt_number entry = a" "\<not> passed entry" "generation_attempt nxt = a"
      "int a < maxIterationsPerRule env"
proof -
  obtain v w1 where v: "validator_validateRule env (cur\<lparr>generation_attempt := a\<rparr>) w = (v, w1)"
    by (cases "validator_validateRule env (cur\<lparr>generation_attempt := a\<rparr>) w")
  obtain ts w2 where ts: "Date_now_iso env w1 = (ts, w2)"
    by (cases "Date_now_iso env w1")
  show ?thesis
  proof (cases "vr_passed v")
    case True
    with v ts show ?thesis
      by (intro passed [of v w1 ts w2]) (simp_all add: refine_pass_def Let_def)
  next
    case False
    note np = this
    define recorded where "recorded = cur\<lparr>generation_attempt := a,
              validation_history := validation_history cur @
                [\<lparr>attempt_number = a, passed = False, error = consolidated_error v,
                  test_output = vr_test_output v,
                  feedback_to_llm = Some (createFeedbackForLLM v), timestamp = ts\<rparr>]\<rparr>"
    show ?thesis
    proof (cases "int a \<ge> maxIterationsPerRule env")
      case True
      with v ts np show ?thesis
        by (intro stopped [of "Inr \<lparr>validated = False, result_rule = recorded,
                                     iterations = a\<rparr>" w2])
           (simp_all add: refine_pass_def Let_def recorded_def)
    next
      case False
      obtain g w3 where g: "regenerateRule env (regeneration_context p f recorded v) w2 = (g, w3)"
        by (cases "regenerateRule env (regeneration_context p f recorded v) w2")
      show ?thesis
      proof (cases g)
        case (Inl e)
        with v ts np False g show ?thesis
          by (intro stopped [of "Inl e" w3]) (simp_all add: refine_pass_def Let_def recorded_def)
      next
        case (Inr rs)
        show ?thesis
        proof (cases rs)
          case Nil
          with Inr v ts np False g show ?thesis
            by (intro stopped [of "Inr \<lparr>validated = False, result_rule = recorded,
                                         iterations = a\<rparr>" w3])
               (simp_all add: refine_pass_def Let_def recorded_def)
        next
          case (Cons nextRule others)
          with Inr v ts np False g show ?thesis
            by (intro again [of
                  "nextRule\<lparr>rule_id := rule_id init,
                     validation_history := validation_history recorded,
                     generation_attempt := a\<rparr>" w3
                  "\<lparr>attempt_number = a, passed = False, error = consolidated_error v,
                    test_output = vr_test_output v,
                    feedback_to_llm = Some (createFeedbackForLLM v), timestamp = ts\<rparr>"])
               (simp_all add: refine_pass_def Let_def recorded_def)
        qed
      qed
    qed
  qed
qed

lemma refine_loop_stop:
  "\<not> int a < maxIterationsPerRule env \<Longrightarrow>
     refine_loop env init p f cur a w =
       (Inr \<lparr>validated = False, result_rule = cur, iterations = a\<rparr>, w)"
  by (subst refine_loop.simps) simp

lemma refine_loop_return:
  "int a < maxIterationsPerRule env \<Longrightarrow>
   refine_pass env init p f cur (a + 1) w = (Return r, w') \<Longrightarrow>
     refine_loop env init p f cur a w = (r, w')"
  by (subst refine_loop.simps) simp

lemma refine_loop_continue:
  "int a < maxIterationsPerRule env \<Longrightarrow>
   refine_pass env init p f cur (a + 1) w = (Continue nxt, w') \<Longrightarrow>
     refine_loop env init p f cur a w = refine_loop env init p f nxt (a + 1) w'"
  by (subst refine_loop.simps) simp

lemma refine_loop_validated:
  assumes "length (validation_history cur) = a"
    and "map attempt_number (validation_history cur) = [1..<Suc a]"
    and "refine_loop env init p f cur a w = (Inr res, w')"
    and "validated res"
  shows "validation_history (result_rule res) \<noteq> [] \<and>
         passed (last (validation_history (result_rule res))) \<and>
         length (validation_history (result_rule res)) = generation_attempt (result_rule res) \<and>
         map attempt_number (validation_history (result_rule res)) =
           [1..<Suc (length (validation_history (result_rule res)))] \<and>
         iterations res = length (validation_history (result_rule res))"
  using assms
proof (induction "nat (maxIterationsPerRule env) - a" arbitrary: cur a w)
  case 0
  then have "\<not> int a < maxIterationsPerRule env" by simp
  from refine_loop_stop [OF this] 0 show ?case by auto
next
  case (Suc k)
  then have lt: "int a < maxIterationsPerRule env" by simp
  show ?case
  proof (cases rule: refine_pass_cases [where env = env and cur = cur and a = "a + 1" and w = w and init = init and p = p and f = f])
    case (passed v w1 ts w2)
    from refine_loop_return [OF lt passed(4)] Suc.prems(3)
    have "res = \<lparr>validated = True,
            result_rule = cur\<lparr>generation_attempt := a + 1,
              validation_history := validation_history cur @
                [\<lparr>attempt_number = a + 1, passed = True, error = consolidated_error v,
                  test_output = vr_test_output v, feedback_to_llm = None,
                  timestamp = ts\<rparr>]\<rparr>,
            iterations = a + 1\<rparr>"
      by simp
    with Suc.prems(1,2) show ?thesis by simp
  next
    case (stopped r w1)
    from refine_loop_return [OF lt stopped(1)] Suc.prems(3) have "r = Inr res" by simp
    with stopped(2) Suc.prems(4) show ?thesis by simp
  next
    case (again nxt w1 entry)
    have k: "k = nat (maxIterationsPerRule env) - (a + 1)"
      using Suc.hyps(2) by simp
    have len: "length (validation_history nxt) = a + 1"
      using again(2) Suc.prems(1) by simp
    have nums: "map attempt_number (validation_history nxt) = [1..<Suc (a + 1)]"
      using again(2,3) Suc.prems(2) by simp
    have run: "refine_loop env init p f nxt (a + 1) w1 = (Inr res, w')"
      using refine_loop_continue [OF lt again(1)] Suc.prems(3) by simp
    from Suc.hyps(1) [OF k len nums run Suc.prems(4)] show ?thesis .
  qed
qed

lemma counted_max: "maxIterationsPerRule (count_validator env) = maxIterationsPerRule env"
  by (simp add: count_validator_def)

lemma counted_pass:
  "refine_pass (count_validator env) init p f cur a (w, n) =
     (case refine_pass env init p f cur a w of (r, w') \<Rightarrow> (r, (w', Suc n)))"
  by (simp add: refine_pass_def count_validator_def Let_def
      split: prod.splits sum.splits list.splits)

lemma counted_loop:
  "\<exists>res w' k.
     refine_loop env init p f cur a w = (res, w') \<and>
     refine_loop (count_validator env) init p f cur a (w, n) = (res, (w', n + k)) \<and>
     k \<le> nat (maxIterationsPerRule env) - a \<and>
     (\<forall>r. res = Inr r \<longrightarrow> iterations r = a + k)"
proof (induction "nat (maxIterationsPerRule env) - a" arbitrary: cur a w n)
  case 0
  then have stop: "\<not> int a < maxIterationsPerRule env" by simp
  then have stop': "\<not> int a < maxIterationsPerRule (count_validator env)"
    by (simp add: counted_max)
  show ?case
    using refine_loop_stop [OF stop, of init p f cur w]
      refine_loop_stop [OF stop', of init p f cur "(w, n)"]
    by (intro exI [of _ "Inr \<lparr>validated = False, result_rule = cur, iterations = a\<rparr>"]
          exI [of _ w] exI [of _ 0]) simp
next
  case (Suc j)
  then have lt: "int a < maxIterationsPerRule env" by simp
  then have lt': "int a < maxIterationsPerRule (count_validator env)"
    by (simp add: counted_max)
  obtain x w1 where pass: "refine_pass env init p f cur (a + 1) w = (x, w1)"
    by (cases "refine_pass env init p f cur (a + 1) w")
  then have cpass: "refine_pass (count_validator env) init p f cur (a + 1) (w, n) =
      (x, (w1, Suc n))"
    by (simp add: counted_pass)
  show ?case
  proof (cases x)
    case (Return r)
    have it: "\<forall>r'. r = Inr r' \<longrightarrow> iterations r' = a + 1"
    proof (cases rule: refine_pass_cases [where env = env and cur = cur and a = "a + 1" and w = w and init = init and p = p and f = f])
      case (passed v w1' ts w2)
      with pass Return show ?thesis by auto
    next
      case (stopped res w')
      with pass Return show ?thesis by auto
    next
      case (again nxt w' entry)
      with pass Return show ?thesis by simp
    qed
    from Return pass cpass
    have "refine_loop env init p f cur a w = (r, w1)"
      and "refine_loop (count_validator env) init p f cur a (w, n) = (r, (w1, n + 1))"
      using refine_loop_return [OF lt, of init p f cur w r w1]
        refine_loop_return [OF lt', of init p f cur "(w, n)" r "(w1, Suc n)"]
      by simp_all
    moreover have "1 \<le> nat (maxIterationsPerRule env) - a"
      using Suc.hyps(2) by simp
    ultimately show ?thesis
      using it by (intro exI [of _ r] exI [of _ w1] exI [of _ 1]) simp
  next
    case (Continue nxt)
    have j: "j = nat (maxIterationsPerRule env) - (a + 1)"
      using Suc.hyps(2) by simp
    from Suc.hyps(1) [OF j, of nxt w1 "Suc n"] obtain res w' k where
      ih: "refine_loop env init p f nxt (a + 1) w1 = (res, w')"
        "refine_loop (count_validator env) init p f nxt (a + 1) (w1, Suc n) =
           (res, (w', Suc n + k))"
        "k \<le> nat (maxIterationsPerRule env) - (a + 1)"
        "\<forall>r. res = Inr r \<longrightarrow> iterations r = a + 1 + k"
      by blast
    from Continue pass cpass
    have "refine_loop env init p f cur a w = refine_loop env init p f nxt (a + 1) w1"
      and "refine_loop (count_validator env) init p f cur a (w, n) =
           refine_loop (count_validator env) init p f nxt (a + 1) (w1, Suc n)"
      using refine_loop_continue [OF lt, of init p f cur w nxt w1]
        refine_loop_continue [OF lt', of init p f cur "(w, n)" nxt "(w1, Suc n)"]
      by simp_all
    with ih have "refine_loop env init p f cur a w = (res, w')"
      and "refine_loop (count_validator env) init p f cur a (w, n) = (res, (w', n + Suc k))"
      by simp_all
    moreover have "Suc k \<le> nat (maxIterationsPerRule env) - a"
      using ih(3) Suc.hyps(2) by simp
    moreover have "\<forall>r. res = Inr r \<longrightarrow> iterations r = a + Suc k"
      using ih(4) by simp
    ultimately show ?thesis
      by (intro exI [of _ res] exI [of _ w'] exI [of _ "Suc k"]) simp
  qed
qed

lemma validated_rule_history:
  assumes "validateAndRefineRule env draft p f w = (Inr res, w')" and "validated res"
  shows "validation_history (result_rule res) \<noteq> [] \<and>
         passed (last (validation_history (result_rule res))) \<and>
         length (validation_history (result_rule res)) = generation_attempt (result_rule res) \<and>
         map attempt_number (validation_history (result_rule res)) =
           [1..<Suc (length (validation_history (result_rule res)))]"
proof -
  have len: "length (validation_history (draft\<lparr>validation_history := []\<rparr>)) = 0"
    and nums: "map attempt_number (validation_history (draft\<lparr>validation_history := []\<rparr>)) =
         [1..<Suc 0]"
    by simp_all
  from assms(1) have run:
    "refine_loop env draft p f (draft\<lparr>validation_history := []\<rparr>) 0 w = (Inr res, w')"
    by (simp add: validateAndRefineRule_def)
  from refine_loop_validated [OF len nums run assms(2)] show ?thesis by simp
qed

lemma refine_all_history:
  assumes "\<forall>r \<in> set accum. validation_history r \<noteq> [] \<and>
         passed (last (validation_history r)) \<and>
         length (validation_history r) = generation_attempt r \<and>
         map attempt_number (validation_history r) = [1..<Suc (length (validation_history r))]"
    and "refine_all env p f drafts accum tot w = (Inr (accepted, n), w')"
  shows "\<forall>r \<in> set accepted. validation_history r \<noteq> [] \<and>
         passed (last (validation_history r)) \<and>
         length (validation_history r) = generation_attempt r \<and>
         map attempt_number (validation_history r) = [1..<Suc (length (validation_history r))]"
  using assms
proof (induction drafts arbitrary: accum tot w)
  case Nil
  then show ?case by simp
next
  case (Cons draft rest)
  obtain out w1 where run: "validateAndRefineRule env draft p f w = (out, w1)"
    by (cases "validateAndRefineRule env draft p f w")
  show ?case
  proof (cases out)
    case (Inl e)
    with run Cons.prems(2) show ?thesis by simp
  next
    case (Inr res)
    with run Cons.prems(2) have rest:
      "refine_all env p f rest
         (if validated res then accum @ [result_rule res] else accum)
         (tot + iterations res) w1 = (Inr (accepted, n), w')"
      by simp
    have "\<forall>r \<in> set (if validated res then accum @ [result_rule res] else accum).
         validation_history r \<noteq> [] \<and>
         passed (last (validation_history r)) \<and>
         length (validation_history r) = generation_attempt r \<and>
         map attempt_number (validation_history r) = [1..<Suc (length (validation_history r))]"
    proof (cases "validated res")
      case True
      from validated_rule_history [OF run [unfolded Inr] True] Cons.prems(1) True
      show ?thesis by auto
    next
      case False
      with Cons.prems(1) show ?thesis by simp
    qed
    from Cons.IH [OF this rest] show ?thesis .
  qed
qed

lemma saveRules_result:
  assumes "saveRules senv st firmName rs tot w = (Inr data, st', w')"
  shows "rules data = rs \<and> total_iterations data = tot \<and> firm_name data = firmName \<and>
         cache st' firmName = Some data \<and> st' = st\<lparr>cache := (cache st)(firmName \<mapsto> data)\<rparr>"
  using assms
  by (auto simp: saveRules_def Let_def simp del: String_nat.simps split: prod.splits sum.splits)

text \<open>
  C2. Every rule of a bundle that \<open>processPolicy\<close> saved and returned has a non-empty
  validation history whose last entry has \<open>passed = true\<close>, whose length is the rule's
  \<open>generation_attempt\<close>, and whose entries carry the attempt numbers 1, 2, ... in order.
\<close>

theorem persisted_rules_validated:
  "processPolicy env senv st policyText firmName w = (Inr data, st', w') \<longrightarrow>
     (\<forall>r \<in> set (rules data).
        validation_history r \<noteq> [] \<and>
        passed (last (validation_history r)) \<and>
        length (validation_history r) = generation_attempt r \<and>
        map attempt_number (validation_history r) = [1..<Suc (length (validation_history r))])"
proof
  assume run: "processPolicy env senv st policyText firmName w = (Inr data, st', w')"
  obtain g w1 where g: "generateRules env
             \<lparr>ctx_policy_text = policyText, ctx_firm_name = firmName,
              previous_attempt = None\<rparr> w = (g, w1)"
    by (cases "generateRules env
             \<lparr>ctx_policy_text = policyText, ctx_firm_name = firmName,
              previous_attempt = None\<rparr> w")
  show "\<forall>r \<in> set (rules data).
        validation_history r \<noteq> [] \<and>
        passed (last (validation_history r)) \<and>
        length (validation_history r) = generation_attempt r \<and>
        map attempt_number (validation_history r) = [1..<Suc (length (validation_history r))]"
  proof (cases g)
    case (Inl e)
    with g run show ?thesis by (simp add: processPolicy_def)
  next
    case (Inr initialRules)
    obtain out w2 where all: "refine_all env policyText firmName initialRules [] 0 w1 = (out, w2)"
      by (cases "refine_all env policyText firmName initialRules [] 0 w1")
    show ?thesis
    proof (cases out)
      case (Inl e)
      with g Inr all run show ?thesis by (simp add: processPolicy_def)
    next
      case inr: (Inr pair)
      obtain accepted tot where pair: "pair = (accepted, tot)"
        by (cases pair)
      from g Inr all inr pair run
      have save: "saveRules senv st firmName accepted tot w2 = (Inr data, st', w')"
        by (simp add: processPolicy_def)
      have "\<forall>r \<in> set ([] :: Rule list). validation_history r \<noteq> [] \<and>
         passed (last (validation_history r)) \<and>
         length (validation_history r) = generation_attempt r \<and>
         map attempt_number (validation_history r) = [1..<Suc (length (validation_history r))]"
        by simp
      from refine_all_history [OF this all [unfolded inr pair]]
        saveRules_result [OF save]
      show ?thesis by simp
    qed
  qed
qed

theorem persisted_rules_validated_witness:
  "\<exists>data st' w'.
     processPolicy flaky_pipeline_env demo_storage_env empty_store ''policy'' ''Meridian''
       world0 = (Inr data, st', w') \<and>
     length (rules data) = 1 \<and>
     list_all (\<lambda>r. passed (last (validation_history r)) \<and>
                   length (validation_history r) = generation_attempt r \<and>
                   map attempt_number (validation_history r) =
                     [1..<Suc (length (validation_history r))]) (rules data)"
proof -
  have one: "(case fst (processPolicy flaky_pipeline_env demo_storage_env empty_store ''policy''
        ''Meridian'' world0) of Inr d \<Rightarrow> length (rules d) | Inl e \<Rightarrow> 0) = 1"
    by code_simp
  obtain out st' w' where run: "processPolicy flaky_pipeline_env demo_storage_env empty_store
       ''policy'' ''Meridian'' world0 = (out, st', w')"
    by (cases "processPolicy flaky_pipeline_env demo_storage_env empty_store
       ''policy'' ''Meridian'' world0")
  with one obtain data where data: "out = Inr data" and len: "length (rules data) = 1"
    by (cases out) simp_all
  from persisted_rules_validated [of flaky_pipeline_env demo_storage_env empty_store
      "''policy''" "''Meridian''" world0 data st' w'] run data
  have "list_all (\<lambda>r. passed (last (validation_history r)) \<and>
                   length (validation_history r) = generation_attempt r \<and>
                   map attempt_number (validation_history r) =
                     [1..<Suc (length (validation_history r))]) (rules data)"
    by (simp add: list_all_iff)
  with run data len show ?thesis
    by (intro exI [of _ data] exI [of _ st'] exI [of _ w']) simp
qed

text \<open>
  C5. The refinement of a draft always returns (the loop is a total function of what the
  validator, the generator and the clock return). Run with the validator's calls counted,
  it gives the same result and world as without the count, it calls the validator at
  most \<open>maxIterationsPerRule\<close> times (not at all when that number is zero or negative), and
  the \<open>iterations\<close> it returns is the number of calls made. Without the option the
  pipeline is built with 5.
\<close>

theorem refinement_loop_bounded:
  "(\<exists>res w' calls.
      validateAndRefineRule (count_validator env) draft policyText firmName (w, 0) =
        (res, (w', calls)) \<and>
      validateAndRefineRule env draft policyText firmName w = (res, w') \<and>
      int calls \<le> max 0 (maxIterationsPerRule env) \<and>
      (case res of Inl e \<Rightarrow> True | Inr r \<Rightarrow> iterations r = calls)) \<and>
   maxIterations_option None = 5"
proof
  from counted_loop [of env draft policyText firmName "draft\<lparr>validation_history := []\<rparr>" 0 w 0]
  obtain res where "\<exists>w' k.
     refine_loop env draft policyText firmName (draft\<lparr>validation_history := []\<rparr>) 0 w =
       (res, w') \<and>
     refine_loop (count_validator env) draft policyText firmName
       (draft\<lparr>validation_history := []\<rparr>) 0 (w, 0) = (res, (w', 0 + k)) \<and>
     k \<le> nat (maxIterationsPerRule env) - 0 \<and>
     (\<forall>r. res = Inr r \<longrightarrow> iterations r = 0 + k)" ..
  then obtain w' where "\<exists>k.
     refine_loop env draft policyText firmName (draft\<lparr>validation_history := []\<rparr>) 0 w =
       (res, w') \<and>
     refine_loop (count_validator env) draft policyText firmName
       (draft\<lparr>validation_history := []\<rparr>) 0 (w, 0) = (res, (w', 0 + k)) \<and>
     k \<le> nat (maxIterationsPerRule env) - 0 \<and>
     (\<forall>r. res = Inr r \<longrightarrow> iterations r = 0 + k)" ..
  then obtain k where four:
    "refine_loop env draft policyText firmName (draft\<lparr>validation_history := []\<rparr>) 0 w =
       (res, w') \<and>
     refine_loop (count_validator env) draft policyText firmName
       (draft\<lparr>validation_history := []\<rparr>) 0 (w, 0) = (res, (w', 0 + k)) \<and>
     k \<le> nat (maxIterationsPerRule env) - 0 \<and>
     (\<forall>r. res = Inr r \<longrightarrow> iterations r = 0 + k)" ..
  from four have
    plain: "refine_loop env draft policyText firmName (draft\<lparr>validation_history := []\<rparr>) 0 w =
       (res, w')"
    by (elim conjE)
  from four have counted: "refine_loop (count_validator env) draft policyText firmName
       (draft\<lparr>validation_history := []\<rparr>) 0 (w, 0) = (res, (w', 0 + k))"
    by (elim conjE)
  from four have bound: "k \<le> nat (maxIterationsPerRule env) - 0"
    by (elim conjE)
  from four have iter: "\<forall>r. res = Inr r \<longrightarrow> iterations r = 0 + k"
    by (elim conjE)
  have b: "int k \<le> max 0 (maxIterationsPerRule env)"
    using bound by simp
  have i: "case res of Inl e \<Rightarrow> True | Inr r \<Rightarrow> iterations r = k"
    using iter by (cases res) simp_all
  show "\<exists>res w' calls.
      validateAndRefineRule (count_validator env) draft policyText firmName (w, 0) =
        (res, (w', calls)) \<and>
      validateAndRefineRule env draft policyText firmName w = (res, w') \<and>
      int calls \<le> max 0 (maxIterationsPerRule env) \<and>
      (case res of Inl e \<Rightarrow> True | Inr r \<Rightarrow> iterations r = calls)"
    using plain counted b i
    by (intro exI [of _ res] exI [of _ w'] exI [of _ k])
       (simp add: validateAndRefineRule_def)
next
  show "maxIterations_option None = 5"
    by (simp add: maxIterations_option_def)
qed

theorem refinement_loop_bounded_witness:
  "\<exists>res w'.
     validateAndRefineRule (count_validator flaky_pipeline_env) draft_bad ''policy''
       ''Meridian'' (world0, 0) = (res, (w', 2)) \<and>
     validateAndRefineRule flaky_pipeline_env draft_bad ''policy'' ''Meridian'' world0 =
       (res, w') \<and>
     (case res of Inl e \<Rightarrow> False | Inr r \<Rightarrow> iterations r = 2 \<and> validated r) \<and>
     maxIterationsPerRule flaky_pipeline_env = 5"
proof -
  note inst = refinement_loop_bounded [of flaky_pipeline_env draft_bad "''policy''"
      "''Meridian''" world0]
  from inst have five: "maxIterations_option None = 5" by (rule conjunct2)
  from inst [THEN conjunct1] obtain res where "\<exists>w' calls.
      validateAndRefineRule (count_validator flaky_pipeline_env) draft_bad ''policy''
        ''Meridian'' (world0, 0) = (res, (w', calls)) \<and>
      validateAndRefineRule flaky_pipeline_env draft_bad ''policy'' ''Meridian'' world0 =
        (res, w') \<and>
      int calls \<le> max 0 (maxIterationsPerRule flaky_pipeline_env) \<and>
      (case res of Inl e \<Rightarrow> True | Inr r \<Rightarrow> iterations r = calls)" ..
  then obtain w' where "\<exists>calls.
      validateAndRefineRule (count_validator flaky_pipeline_env) draft_bad ''policy''
        ''Meridian'' (world0, 0) = (res, (w', calls)) \<and>
      validateAndRefineRule flaky_pipeline_env draft_bad ''policy'' ''Meridian'' world0 =
        (res, w') \<and>
      int calls \<le> max 0 (maxIterationsPerRule flaky_pipeline_env) \<and>
      (case res of Inl e \<Rightarrow> True | Inr r \<Rightarrow> iterations r = calls)" ..
  then obtain calls where four:
     "validateAndRefineRule (count_validator flaky_pipeline_env) draft_bad ''policy''
        ''Meridian'' (world0, 0) = (res, (w', calls)) \<and>
      validateAndRefineRule flaky_pipeline_env draft_bad ''policy'' ''Meridian'' world0 =
        (res, w') \<and>
      int calls \<le> max 0 (maxIterationsPerRule flaky_pipeline_env) \<and>
      (case res of Inl e \<Rightarrow> True | Inr r \<Rightarrow> iterations r = calls)" ..
  from four have
    counted: "validateAndRefineRule (count_validator flaky_pipeline_env) draft_bad ''policy''
       ''Meridian'' (world0, 0) = (res, (w', calls))"
    by (elim conjE)
  from four have
    plain: "validateAndRefineRule flaky_pipeline_env draft_bad ''policy'' ''Meridian''
       world0 = (res, w')"
    by (elim conjE)
  from four have
    iter: "case res of Inl e \<Rightarrow> True | Inr r \<Rightarrow> iterations r = calls"
    by (elim conjE)
  have "snd (snd (validateAndRefineRule (count_validator flaky_pipeline_env) draft_bad
      ''policy'' ''Meridian'' (world0, 0))) = 2"
    by code_simp
  with counted have calls: "calls = 2" by simp
  have "(case fst (validateAndRefineRule flaky_pipeline_env draft_bad ''policy'' ''Meridian''
      world0) of Inl e \<Rightarrow> False | Inr r \<Rightarrow> validated r)"
    by code_simp
  with plain iter calls
  have ok: "case res of Inl e \<Rightarrow> False | Inr r \<Rightarrow> iterations r = 2 \<and> validated r"
    by (cases res) simp_all
  have m: "maxIterationsPerRule flaky_pipeline_env = 5"
    using five by (simp add: flaky_pipeline_env_def)
  from counted plain ok m calls show ?thesis
    by (intro exI [of _ res] exI [of _ w']) simp
qed

end
